theory Spec2Isabelle
  imports Complex_Main "HOL-Library.Word"
begin

section \<open>The LogFlux Go SDK send pipeline\<close>

text \<open>
  A shallow embedding of the client package (circuit breaker, retry loop, asynchronous
  queue, batcher), of \<open>Config.CalculateBackoffDelay\<close> and of \<open>LogEntry.WithLogLevel\<close>.

  Conventions of the embedding:
  \<^item> Go's \<open>int\<close>, \<open>int64\<close> and \<open>time.Duration\<close> values are \<open>int\<close>; none of the modelled
    arithmetic on them can leave 64 bits for values that occur (a retry bound below
    \<open>2^63 - 1\<close>, Unix times in nanoseconds). The \<open>int32\<close> failure counter is a
    \<open>32 word\<close>, read with \<open>sint\<close>, because the code converts and increments at that width.
  \<^item> The \<open>float64\<close> fields of the configuration are real numbers (a configured value
    is finite). The values that \<open>float64\<close> arithmetic produces belong to a type
    parameter, and its operations are parameters (see the backoff delay).
  \<^item> \<open>time.Now()\<close>, \<open>rand.Float64()\<close> and the results of dialling, serialising, writing
    and closing come from an environment record, one per call.
  \<^item> An error value is a term of the datatype \<open>error\<close>, one constructor per
    \<open>fmt.Errorf\<close> format of the source; \<open>nil\<close> is \<open>None\<close>.
  \<^item> A call either returns, panics, or blocks for ever; a call that blocks leaves a
    state behind, which the other goroutines go on from.
  \<^item> Calls run one after the other. The worker goroutine moves only by the steps
    written for it.
\<close>

subsection \<open>Configuration (package config)\<close>

record Config =
  Network :: string
  Address :: string
  SharedSecret :: string
  Timeout :: int
  FlushInterval :: int
  BatchSize :: int
  MaxRetries :: int
  RetryDelay :: int
  MaxRetryDelay :: int
  RetryMultiplier :: real
  JitterPercent :: real
  AsyncMode :: bool
  ChannelBuffer :: int
  CircuitBreakerThreshold :: int
  CircuitBreakerTimeout :: int

record BatchConfig =
  MaxBatchSize :: int
  BatchFlushInterval :: int
  AutoFlush :: bool

definition Millisecond :: int where
  "Millisecond = 1000000"

definition Second :: int where
  "Second = 1000000000"

definition DefaultSocketPath :: string where
  "DefaultSocketPath = ''/tmp/logflux-agent.sock''"

text \<open>
  The default jitter is the \<open>float64\<close> constant \<open>0.1\<close>, that is the fraction below, the
  \<open>float64\<close> value nearest to one tenth.
\<close>

definition DefaultConfig :: Config where
  "DefaultConfig =
     \<lparr> Network = ''unix'',
       Address = DefaultSocketPath,
       SharedSecret = '''',
       Timeout = 10 * Second,
       FlushInterval = 5 * Second,
       BatchSize = 10,
       MaxRetries = 3,
       RetryDelay = 100 * Millisecond,
       MaxRetryDelay = 5 * Second,
       RetryMultiplier = 2,
       JitterPercent = 3602879701896397 / 36028797018963968,
       AsyncMode = True,
       ChannelBuffer = 1000,
       CircuitBreakerThreshold = 5,
       CircuitBreakerTimeout = 30 * Second \<rparr>"

definition DefaultBatchConfig :: BatchConfig where
  "DefaultBatchConfig =
     \<lparr> MaxBatchSize = 10, BatchFlushInterval = 5 * Second, AutoFlush = True \<rparr>"

subsection \<open>Backoff delay\<close>

text \<open>
  The arithmetic of \<open>float64\<close>. What its operations return (with their rounding, their
  overflow to an infinity, the value that is not a number, and the conversion of a value
  that does not fit an \<open>int64\<close>) is not computed in this theory: the values belong to a
  type \<open>'f\<close>, and the operations that \<open>CalculateBackoffDelay\<close> uses are the fields of
  a record. A property stated for every such record holds for the arithmetic of the
  machine. The fields: \<open>float64(n)\<close> of an integer; the \<open>float64\<close> value of a
  configured number or of a constant of the source; the product, the sum, the
  difference; the comparison \<open>>\<close>; and \<open>time.Duration(x)\<close>.
\<close>

record 'f float64ops =
  fromInt :: "int \<Rightarrow> 'f"
  fromConst :: "real \<Rightarrow> 'f"
  times64 :: "'f \<Rightarrow> 'f \<Rightarrow> 'f"
  plus64 :: "'f \<Rightarrow> 'f \<Rightarrow> 'f"
  minus64 :: "'f \<Rightarrow> 'f \<Rightarrow> 'f"
  greater64 :: "'f \<Rightarrow> 'f \<Rightarrow> bool"
  toDuration :: "'f \<Rightarrow> int"

text \<open>
  \<open>for i := 0; i < attempt; i++ { delay *= c.RetryMultiplier }\<close>, the number of
  rounds left as a natural number.
\<close>

primrec multiplyDelay :: "'f float64ops \<Rightarrow> 'f \<Rightarrow> 'f \<Rightarrow> nat \<Rightarrow> 'f" where
  "multiplyDelay ops m delay 0 = delay"
| "multiplyDelay ops m delay (Suc n) = multiplyDelay ops m (times64 ops delay m) n"

text \<open>
  \<open>CalculateBackoffDelay\<close>; the argument \<open>r\<close> is the value that \<open>rand.Float64()\<close>
  returns.
\<close>

definition CalculateBackoffDelay :: "'f float64ops \<Rightarrow> Config \<Rightarrow> int \<Rightarrow> 'f \<Rightarrow> int" where
  "CalculateBackoffDelay ops c attempt r =
     (if attempt \<le> 0 then RetryDelay c
      else
        let delay = multiplyDelay ops (fromConst ops (RetryMultiplier c))
                      (fromInt ops (RetryDelay c)) (nat attempt);
            maxDelay = fromInt ops (MaxRetryDelay c);
            delay = (if greater64 ops delay maxDelay then maxDelay else delay);
            delay = (if JitterPercent c > 0
                     then (let jitter = times64 ops delay (fromConst ops (JitterPercent c));
                               jitterAmount =
                                 times64 ops
                                   (minus64 ops (times64 ops r (fromConst ops 2)) (fromConst ops 1))
                                   jitter
                           in plus64 ops delay jitterAmount)
                     else delay);
            finalDelay = toDuration ops delay
        in if finalDelay < RetryDelay c then RetryDelay c else toDuration ops delay)"

subsection \<open>Log entries (package types)\<close>

record LogEntry =
  Metadata :: "string \<rightharpoonup> string"
  Version :: string
  Payload :: string
  Source :: string
  Timestamp :: string
  PayloadType :: string
  EntryType :: int
  LogLevel :: int

definition LevelEmergency :: int where "LevelEmergency = 1"
definition LevelInfo :: int where "LevelInfo = 7"
definition LevelDebug :: int where "LevelDebug = 8"

definition DefaultProtocolVersion :: string where
  "DefaultProtocolVersion = ''1.0''"

definition WithLogLevel :: "LogEntry \<Rightarrow> int \<Rightarrow> LogEntry" where
  "WithLogLevel e logLevel =
     (let logLevel = (if logLevel < LevelEmergency \<or> logLevel > LevelDebug
                      then LevelInfo else logLevel)
      in e\<lparr>LogLevel := logLevel\<rparr>)"

subsection \<open>Circuit breaker\<close>

text \<open>
  The field \<open>state\<close> is an \<open>int32\<close> in which only the three constants below are ever
  stored. The breaker's \<open>config\<close> pointer is the client's; the operations take the
  configuration as an argument. The time read by \<open>time.Since\<close> and \<open>time.Now\<close> is the
  argument \<open>now\<close>, in nanoseconds. Each operation is modelled as it runs alone, so the
  compare-and-swap in \<open>canExecute\<close> finds the value that was just loaded.
\<close>

datatype circuitBreakerState = circuitClosed | circuitOpen | circuitHalfOpen

record circuitBreaker =
  lastFailureTime :: int
  state :: circuitBreakerState
  failureCount :: "32 word"

datatype error =
    ExternalError string
  | FailedToConnect string string error
  | FailedToMarshal error
  | FailedToSetWriteDeadline error
  | FailedToWrite error
  | CircuitBreakerIsOpen
  | FailedToSendAfter int "error option"
  | AsyncNotInitialized
  | AsyncChannelFull
  | ClientShuttingDown
  | AuthOnlyForTCP
  | SharedSecretRequired
  | FailedToSendPing error
  | FailedToSendAuth error

definition newCircuitBreaker :: circuitBreaker where
  "newCircuitBreaker = \<lparr> lastFailureTime = 0, state = circuitClosed, failureCount = 0 \<rparr>"

definition canExecute :: "Config \<Rightarrow> int \<Rightarrow> circuitBreaker \<Rightarrow> error option \<times> circuitBreaker" where
  "canExecute cfg now cb =
     (case state cb of
        circuitClosed \<Rightarrow> (None, cb)
      | circuitOpen \<Rightarrow>
          (if now - lastFailureTime cb \<ge> CircuitBreakerTimeout cfg
           then (None, cb\<lparr>state := circuitHalfOpen\<rparr>)
           else (Some CircuitBreakerIsOpen, cb))
      | circuitHalfOpen \<Rightarrow> (None, cb))"

definition onSuccess :: "circuitBreaker \<Rightarrow> circuitBreaker" where
  "onSuccess cb =
     (if state cb = circuitHalfOpen then cb\<lparr>state := circuitClosed, failureCount := 0\<rparr>
      else if state cb = circuitClosed then cb\<lparr>failureCount := 0\<rparr>
      else cb)"

text \<open>\<open>int32(cb.config.CircuitBreakerThreshold)\<close> keeps the low 32 bits.\<close>

definition threshold32 :: "Config \<Rightarrow> 32 word" where
  "threshold32 cfg = word_of_int (CircuitBreakerThreshold cfg)"

definition onFailure :: "Config \<Rightarrow> int \<Rightarrow> circuitBreaker \<Rightarrow> circuitBreaker" where
  "onFailure cfg now cb =
     (let failures = failureCount cb + 1;
          cb = cb\<lparr>failureCount := failures, lastFailureTime := now\<rparr>
      in if state cb = circuitHalfOpen then cb\<lparr>state := circuitOpen\<rparr>
         else if state cb = circuitClosed \<and> sint (threshold32 cfg) \<le> sint failures
              then cb\<lparr>state := circuitOpen\<rparr>
         else cb)"

text \<open>
  The breaker's operations in any order, from the breaker that \<open>NewClient\<close> builds:
  the states the breaker can be in.
\<close>

datatype breakerCall = CallCanExecute int | CallOnSuccess | CallOnFailure int

fun breakerStep :: "Config \<Rightarrow> circuitBreaker \<Rightarrow> breakerCall \<Rightarrow> circuitBreaker" where
  "breakerStep cfg cb (CallCanExecute now) = snd (canExecute cfg now cb)"
| "breakerStep cfg cb CallOnSuccess = onSuccess cb"
| "breakerStep cfg cb (CallOnFailure now) = onFailure cfg now cb"

definition breakerAfter :: "Config \<Rightarrow> breakerCall list \<Rightarrow> circuitBreaker" where
  "breakerAfter cfg calls = foldl (breakerStep cfg) newCircuitBreaker calls"

subsection \<open>Client\<close>

text \<open>
  A call returns a value, panics, or never returns (it waits for something that cannot
  happen). A call that never returns leaves the state it has reached behind: \<open>Blocks s\<close>
  holds that state, the one every other goroutine finds afterwards.
\<close>

datatype ('a, 's) outcome = Returns 'a | Panics | Blocks 's

text \<open>
  The goroutine a method runs on: the background worker that \<open>startAsyncWorker\<close>
  starts, or any other goroutine (a caller of the public methods, the batcher's timer).
\<close>

datatype goroutine = CallerGoroutine | WorkerGoroutine

text \<open>The values passed as \<open>data interface{}\<close>.\<close>

datatype payload =
    LogEntryData LogEntry
  | LogBatchData string "LogEntry list"
  | PingRequest string string
  | AuthRequest string string string
  | OtherData string

record asyncRequest =
  data :: payload
  respChan :: "nat option"

text \<open>A buffered channel: its capacity and the requests waiting in it.\<close>

record asyncChannel =
  capacity :: nat
  queued :: "asyncRequest list"

text \<open>The channel \<open>stopChan\<close> carries no values; it is open or closed.\<close>

datatype signalChan = StopOpen | StopClosed

text \<open>
  A mutex, between calls: free, or held by a call that never returns. A lock taken and
  released inside one call leaves it free.
\<close>

datatype mutex = MuFree | MuHeld

text \<open>
  Where the worker goroutine stands: there is none (synchronous mode, or it has ended);
  it runs outside its \<open>select\<close> (just started, or done with a request) and receives
  nothing; it waits in its \<open>select\<close> on the empty channel, so that a send is handed to
  it; it has received a request; it is stuck in \<open>Close\<close>.
\<close>

datatype workerState =
    NoWorker
  | WorkerRunning
  | WorkerWaiting
  | WorkerHandling asyncRequest
  | WorkerParked

text \<open>A connection handle; the flag says whether \<open>Close\<close> was called on it.\<close>

datatype netConn = NetConn (connClosed: bool)

text \<open>What the client does to the outside, in order (not a field of the source).\<close>

datatype event =
    Dial string string
  | Marshal payload
  | SetWriteDeadline
  | Write payload
  | ConnClose
  | Sleep int
  | StopWorker
  | ReportSuccess
  | ReportFailure
  | Respond nat "error option"

text \<open>
  The fields of the source, with the mutex \<open>mu\<close> as above, the wait group
  \<open>asyncWorker\<close> as the state of the one goroutine it counts, and the trace.
\<close>

record Client =
  config :: Config
  conn :: "netConn option"
  asyncChan :: "asyncChannel option"
  stopChan :: "signalChan option"
  circuitBreaker :: circuitBreaker
  mu :: mutex
  worker :: workerState
  trace :: "event list"

text \<open>
  The environment of one call. The functions indexed by an \<open>int\<close> give the result of
  the operation in the retry attempt of that number; \<open>closeResult\<close> gives what
  \<open>conn.Close()\<close> returns on a handle, by whether the handle was closed before;
  \<open>randFloat\<close> gives what \<open>rand.Float64()\<close> returns, and \<open>arith\<close> is the
  arithmetic of \<open>float64\<close>.
\<close>

record 'f env =
  nowExec :: int
  nowFail :: int
  nowStamp :: string
  dialResult :: "int \<Rightarrow> error option"
  marshalResult :: "int \<Rightarrow> error option"
  deadlineResult :: "int \<Rightarrow> error option"
  writeResult :: "int \<Rightarrow> error option"
  closeResult :: "bool \<Rightarrow> error option"
  randFloat :: "int \<Rightarrow> 'f"
  arith :: "'f float64ops"

definition record_event :: "event \<Rightarrow> Client \<Rightarrow> Client" where
  "record_event ev c = c\<lparr>trace := trace c @ [ev]\<rparr>"

text \<open>
  \<open>NewClient\<close>. \<open>make(chan asyncRequest, n)\<close> panics for a negative \<open>n\<close>. In
  asynchronous mode \<open>startAsyncWorker\<close> starts the worker, which has not reached its
  \<open>select\<close> when \<open>NewClient\<close> returns.
\<close>

definition NewClient :: "Config option \<Rightarrow> (Client, Client) outcome" where
  "NewClient cfg0 =
     (let cfg = (case cfg0 of None \<Rightarrow> DefaultConfig | Some cfg \<Rightarrow> cfg);
          client = \<lparr> config = cfg, conn = None, asyncChan = None, stopChan = None,
                     circuitBreaker = newCircuitBreaker, mu = MuFree, worker = NoWorker,
                     trace = [] \<rparr>
      in if AsyncMode cfg
         then (if ChannelBuffer cfg < 0 then Panics
               else Returns (client\<lparr>asyncChan :=
                                Some \<lparr> capacity = nat (ChannelBuffer cfg), queued = [] \<rparr>,
                              stopChan := Some StopOpen,
                              worker := WorkerRunning\<rparr>))
         else Returns client)"

definition NewUnixClient :: "string \<Rightarrow> (Client, Client) outcome" where
  "NewUnixClient socketPath =
     (let socketPath = (if socketPath = [] then DefaultSocketPath else socketPath)
      in NewClient (Some (DefaultConfig\<lparr>Network := ''unix'', Address := socketPath\<rparr>)))"

text \<open>
  \<open>Connect\<close>: the argument is the result of \<open>DialContext\<close>; on an error the returned
  connection, \<open>nil\<close>, is stored all the same.
\<close>

definition Connect :: "error option \<Rightarrow> Client \<Rightarrow> error option \<times> Client" where
  "Connect dialed c =
     (let c = record_event (Dial (Network (config c)) (Address (config c))) c
      in case dialed of
           Some err \<Rightarrow>
             (Some (FailedToConnect (Network (config c)) (Address (config c)) err),
              c\<lparr>conn := None\<rparr>)
         | None \<Rightarrow> (None, c\<lparr>conn := Some (NetConn False)\<rparr>))"

text \<open>
  \<open>Close\<close>. It takes \<open>c.mu\<close> first, and waits for ever when a call that never returns
  holds it. In asynchronous mode with a stop channel it closes that channel (closing a
  closed channel panics) and waits for the worker goroutine to end, still holding
  \<open>c.mu\<close>. On the worker goroutine itself that wait cannot end: the worker's \<open>Done\<close> is
  deferred to its own return; the call leaves the stop channel closed and the mutex
  held. On any other goroutine the worker is taken to come back to its \<open>select\<close>, empty
  the queue and end. Closing a \<open>nil\<close> channel panics. The connection field is left as
  it is.
\<close>

definition closeConn :: "(bool \<Rightarrow> error option) \<Rightarrow> Client \<Rightarrow> (error option \<times> Client, Client) outcome" where
  "closeConn onClose c =
     (case conn c of
        Some h \<Rightarrow> Returns (onClose (connClosed h),
                           record_event ConnClose (c\<lparr>conn := Some (NetConn True)\<rparr>))
      | None \<Rightarrow> Returns (None, c))"

definition Close :: "goroutine \<Rightarrow> (bool \<Rightarrow> error option) \<Rightarrow> Client \<Rightarrow> (error option \<times> Client, Client) outcome" where
  "Close g onClose c =
     (if mu c = MuHeld then Blocks c
      else if AsyncMode (config c) \<and> stopChan c \<noteq> None
      then (if stopChan c = Some StopClosed then Panics
            else if g = WorkerGoroutine
            then Blocks (c\<lparr>stopChan := Some StopClosed, mu := MuHeld, worker := WorkerParked\<rparr>)
            else case asyncChan c of
                   None \<Rightarrow> Panics
                 | Some ch \<Rightarrow>
                     closeConn onClose
                       (record_event StopWorker
                          (c\<lparr>stopChan := None, asyncChan := None, worker := NoWorker\<rparr>)))
      else closeConn onClose c)"

text \<open>\<open>sendData\<close>; calling a method of the \<open>nil\<close> connection panics.\<close>

definition sendData :: "'f env \<Rightarrow> int \<Rightarrow> Client \<Rightarrow> payload \<Rightarrow> (error option \<times> Client, Client) outcome" where
  "sendData e attempt c d =
     (let c = record_event (Marshal d) c
      in case marshalResult e attempt of
           Some err \<Rightarrow> Returns (Some (FailedToMarshal err), c)
         | None \<Rightarrow>
             (case conn c of
                None \<Rightarrow> Panics
              | Some h \<Rightarrow>
                  (let writeErr = (if Timeout (config c) > 0 then deadlineResult e attempt
                                   else None);
                       c = (if Timeout (config c) > 0 then record_event SetWriteDeadline c
                            else c)
                   in case writeErr of
                        Some err \<Rightarrow> Returns (Some (FailedToSetWriteDeadline err), c)
                      | None \<Rightarrow>
                          (let c = record_event (Write d) c
                           in case writeResult e attempt of
                                Some err \<Rightarrow> Returns (Some (FailedToWrite err), c)
                              | None \<Rightarrow> Returns (None, c)))))"

text \<open>
  The loop of \<open>sendWithRetry\<close>, from the attempt \<open>attempt\<close> on, with the last error
  so far.
\<close>

function retryLoop ::
  "goroutine \<Rightarrow> 'f env \<Rightarrow> payload \<Rightarrow> int \<Rightarrow> error option \<Rightarrow> Client \<Rightarrow> (error option \<times> Client, Client) outcome"
where
  "retryLoop g e d attempt lastErr c =
     (if attempt \<le> MaxRetries (config c)
      then
        (let c1 = (if attempt > 0
                   then record_event
                          (Sleep (CalculateBackoffDelay (arith e) (config c) attempt
                                    (randFloat e attempt))) c
                   else c);
             connected = (if conn c1 = None then Connect (dialResult e attempt) c1
                          else (None, c1))
         in case fst connected of
              Some err \<Rightarrow> retryLoop g e d (attempt + 1) (Some err) (snd connected)
            | None \<Rightarrow>
                (case sendData e attempt (snd connected) d of
                   Panics \<Rightarrow> Panics
                 | Blocks s \<Rightarrow> Blocks s
                 | Returns sent \<Rightarrow>
                     (case fst sent of
                        Some err \<Rightarrow>
                          (case Close g (closeResult e) (snd sent) of
                             Panics \<Rightarrow> Panics
                           | Blocks s \<Rightarrow> Blocks s
                           | Returns shut \<Rightarrow>
                               retryLoop g e d (attempt + 1) (Some err)
                                 ((snd shut)\<lparr>conn := None\<rparr>))
                      | None \<Rightarrow>
                          Returns (None,
                            record_event ReportSuccess
                              ((snd sent)\<lparr>circuitBreaker :=
                                  onSuccess (circuitBreaker (snd sent))\<rparr>)))))
      else
        Returns (Some (FailedToSendAfter (MaxRetries (config c) + 1) lastErr),
          record_event ReportFailure
            (c\<lparr>circuitBreaker := onFailure (config c) (nowFail e) (circuitBreaker c)\<rparr>)))"
  by pat_completeness auto
termination
  apply (relation "measure (\<lambda>(g, e, d, attempt, lastErr, c). nat (MaxRetries (config c) + 1 - attempt))")
    apply simp
   apply (auto simp: Connect_def record_event_def Let_def split: option.splits if_splits)[1]
  apply (auto simp: Connect_def sendData_def Close_def closeConn_def record_event_def Let_def
              split: option.splits if_splits)
  done

declare retryLoop.simps [simp del]

definition sendWithRetry :: "goroutine \<Rightarrow> 'f env \<Rightarrow> Client \<Rightarrow> payload \<Rightarrow> (error option \<times> Client, Client) outcome" where
  "sendWithRetry g e c d =
     (let checked = canExecute (config c) (nowExec e) (circuitBreaker c)
      in case fst checked of
           Some err \<Rightarrow> Returns (Some err, c\<lparr>circuitBreaker := snd checked\<rparr>)
         | None \<Rightarrow> retryLoop g e d 0 None (c\<lparr>circuitBreaker := snd checked\<rparr>))"

text \<open>
  \<open>sendAsync\<close>. It takes \<open>c.mu\<close> for reading first, and waits for ever when a call
  that never returns holds it. The \<open>select\<close> with a \<open>default\<close> branch sends when the
  worker waits in its \<open>select\<close> (the request is handed to it) or the buffer has room,
  and takes the \<open>default\<close> branch otherwise.
\<close>

definition sendAsync :: "Client \<Rightarrow> payload \<Rightarrow> (error option \<times> Client, Client) outcome" where
  "sendAsync c d =
     (if mu c = MuHeld then Blocks c
      else
        (case asyncChan c of
           None \<Rightarrow> Returns (Some AsyncNotInitialized, c)
         | Some ch \<Rightarrow>
             (if stopChan c = None then Returns (Some AsyncNotInitialized, c)
              else
                (let req = \<lparr> data = d, respChan = None \<rparr>
                 in if worker c = WorkerWaiting
                    then Returns (None, c\<lparr>worker := WorkerHandling req\<rparr>)
                    else if length (queued ch) < capacity ch
                    then Returns (None, c\<lparr>asyncChan := Some (ch\<lparr>queued := queued ch @ [req]\<rparr>)\<rparr>)
                    else Returns (Some AsyncChannelFull, c)))))"

text \<open>
  The worker goroutine, in steps. At its \<open>select\<close>, \<open>receiveRequest\<close> takes the oldest
  request from the channel when there is one (\<open>case req := <-c.asyncChan\<close>), and
  \<open>workerWait\<close> is the worker settling down to wait when there is none.
  \<open>workerHandle\<close> is the body of the branch for a request received, from the channel or
  by a hand-over: it sends on the worker goroutine, answers on the request's channel,
  if any, and goes round the loop. The stop channel is closed only inside \<open>Close\<close>, so
  the steps do not look at it.
\<close>

definition receiveRequest :: "Client \<Rightarrow> (asyncRequest \<times> Client) option" where
  "receiveRequest c =
     (if worker c = WorkerRunning
      then (case asyncChan c of
              None \<Rightarrow> None
            | Some ch \<Rightarrow>
                (case queued ch of
                   [] \<Rightarrow> None
                 | req # rest \<Rightarrow>
                     Some (req, c\<lparr>asyncChan := Some (ch\<lparr>queued := rest\<rparr>),
                                  worker := WorkerHandling req\<rparr>)))
      else None)"

definition workerWait :: "Client \<Rightarrow> Client" where
  "workerWait c =
     (if worker c = WorkerRunning \<and> receiveRequest c = None
      then c\<lparr>worker := WorkerWaiting\<rparr> else c)"

definition workerHandle :: "'f env \<Rightarrow> Client \<Rightarrow> asyncRequest \<Rightarrow> (Client, Client) outcome" where
  "workerHandle e c req =
     (case sendWithRetry WorkerGoroutine e c (data req) of
        Panics \<Rightarrow> Panics
      | Blocks s \<Rightarrow> Blocks s
      | Returns sent \<Rightarrow>
          (case respChan req of
             None \<Rightarrow> Returns ((snd sent)\<lparr>worker := WorkerRunning\<rparr>)
           | Some r \<Rightarrow>
               Returns ((record_event (Respond r (fst sent)) (snd sent))
                          \<lparr>worker := WorkerRunning\<rparr>)))"

definition setTimestamp :: "string \<Rightarrow> LogEntry \<Rightarrow> LogEntry" where
  "setTimestamp stamp entry =
     (if Timestamp entry = [] then entry\<lparr>Timestamp := stamp\<rparr> else entry)"

definition SendLogEntry :: "'f env \<Rightarrow> Client \<Rightarrow> LogEntry \<Rightarrow> (error option \<times> Client, Client) outcome" where
  "SendLogEntry e c entry =
     (let entry = setTimestamp (nowStamp e) entry
      in if AsyncMode (config c) then sendAsync c (LogEntryData entry)
         else sendWithRetry CallerGoroutine e c (LogEntryData entry))"

definition SendLogBatch :: "'f env \<Rightarrow> Client \<Rightarrow> LogEntry list \<Rightarrow> (error option \<times> Client, Client) outcome" where
  "SendLogBatch e c entries =
     (let entries = map (setTimestamp (nowStamp e)) entries;
          batch = LogBatchData DefaultProtocolVersion entries
      in if AsyncMode (config c) then sendAsync c batch
         else sendWithRetry CallerGoroutine e c batch)"

definition NewPingRequest :: payload where
  "NewPingRequest = PingRequest DefaultProtocolVersion ''ping''"

definition NewAuthRequest :: "string \<Rightarrow> (payload, Client) outcome" where
  "NewAuthRequest sharedSecret =
     (if sharedSecret = [] then Panics
      else Returns (AuthRequest DefaultProtocolVersion ''authenticate'' sharedSecret))"

definition Ping :: "'f env \<Rightarrow> Client \<Rightarrow> ((error + string) \<times> Client, Client) outcome" where
  "Ping e c =
     (case sendWithRetry CallerGoroutine e c NewPingRequest of
        Panics \<Rightarrow> Panics
      | Blocks s \<Rightarrow> Blocks s
      | Returns sent \<Rightarrow>
          (case fst sent of
             Some err \<Rightarrow> Returns (Inl (FailedToSendPing err), snd sent)
           | None \<Rightarrow> Returns (Inr ''pong'', snd sent)))"

record AuthResponse =
  Status :: string
  Message :: string

definition Authenticate :: "'f env \<Rightarrow> Client \<Rightarrow> ((error + AuthResponse) \<times> Client, Client) outcome" where
  "Authenticate e c =
     (if Network (config c) \<noteq> ''tcp'' then Returns (Inl AuthOnlyForTCP, c)
      else if SharedSecret (config c) = [] then Returns (Inl SharedSecretRequired, c)
      else
        (case NewAuthRequest (SharedSecret (config c)) of
           Panics \<Rightarrow> Panics
         | Blocks s \<Rightarrow> Blocks s
         | Returns authReq \<Rightarrow>
             (case sendWithRetry CallerGoroutine e c authReq of
                Panics \<Rightarrow> Panics
              | Blocks s \<Rightarrow> Blocks s
              | Returns sent \<Rightarrow>
                  (case fst sent of
                     Some err \<Rightarrow> Returns (Inl (FailedToSendAuth err), snd sent)
                   | None \<Rightarrow>
                       Returns (Inr \<lparr> Status = ''success'',
                                      Message = ''Authentication successful'' \<rparr>,
                                snd sent)))))"

subsection \<open>Batch client\<close>

text \<open>
  The timer is \<open>nil\<close>, armed, or stopped. The mutex \<open>mu\<close> of the batch client is the
  field \<open>batchMu\<close>: \<open>withBatchLock\<close> is a method body between \<open>bc.mu.Lock()\<close> and the
  deferred \<open>bc.mu.Unlock()\<close>. The call waits for ever when a call that never returns
  holds the mutex; when the body itself never returns, the mutex stays held.
\<close>

datatype timerState = TimerArmed | TimerStopped

record BatchClient =
  client :: Client
  batchConfig :: BatchConfig
  timer :: "timerState option"
  batch :: "LogEntry list"
  batchMu :: mutex
  stopped :: bool

definition withBatchLock ::
  "(BatchClient \<Rightarrow> ('a, BatchClient) outcome) \<Rightarrow> BatchClient \<Rightarrow> ('a, BatchClient) outcome"
where
  "withBatchLock body bc =
     (if batchMu bc = MuHeld then Blocks bc
      else (case body bc of
              Returns r \<Rightarrow> Returns r
            | Panics \<Rightarrow> Panics
            | Blocks s \<Rightarrow> Blocks (s\<lparr>batchMu := MuHeld\<rparr>)))"

definition startFlushTimerLocked :: "BatchClient \<Rightarrow> BatchClient" where
  "startFlushTimerLocked bc = bc\<lparr>timer := Some TimerArmed\<rparr>"

definition NewBatchClient :: "Client option \<Rightarrow> BatchConfig option \<Rightarrow> (BatchClient, BatchClient) outcome" where
  "NewBatchClient client0 batchConfig0 =
     (case client0 of
        None \<Rightarrow> Panics
      | Some cl \<Rightarrow>
          (let cfg = (case batchConfig0 of None \<Rightarrow> DefaultBatchConfig | Some cfg \<Rightarrow> cfg)
           in if MaxBatchSize cfg < 0 then Panics
              else
                (let bc = \<lparr> client = cl, batchConfig = cfg, timer = None, batch = [],
                           batchMu = MuFree, stopped = False \<rparr>
                 in if AutoFlush cfg \<and> BatchFlushInterval cfg > 0
                    then Returns (startFlushTimerLocked bc)
                    else Returns bc)))"

text \<open>
  \<open>flushBatchLocked\<close>, in the order of the source: copy, clear, restart the timer,
  then send the copy through the client. It runs inside a method that holds the
  mutex. When the send never returns, the batch client stays as the send found it,
  around the client that the send left behind, and the method around it records that
  the mutex stays held.
\<close>

definition sendBatchCopy :: "'f env \<Rightarrow> LogEntry list \<Rightarrow> BatchClient \<Rightarrow> (error option \<times> BatchClient, BatchClient) outcome" where
  "sendBatchCopy e batchCopy bc =
     (case SendLogBatch e (client bc) batchCopy of
        Panics \<Rightarrow> Panics
      | Blocks s \<Rightarrow> Blocks (bc\<lparr>client := s\<rparr>)
      | Returns sent \<Rightarrow> Returns (fst sent, bc\<lparr>client := snd sent\<rparr>))"

definition flushBatchLocked :: "'f env \<Rightarrow> BatchClient \<Rightarrow> (error option \<times> BatchClient, BatchClient) outcome" where
  "flushBatchLocked e bc =
     (if length (batch bc) = 0 then Returns (None, bc)
      else
        (let batchCopy = batch bc;
             bc = bc\<lparr>batch := []\<rparr>;
             bc = (if AutoFlush (batchConfig bc) \<and> \<not> stopped bc
                   then startFlushTimerLocked bc else bc)
         in sendBatchCopy e batchCopy bc))"

definition BatchSendLogEntry :: "'f env \<Rightarrow> BatchClient \<Rightarrow> LogEntry \<Rightarrow> (error option \<times> BatchClient, BatchClient) outcome" where
  "BatchSendLogEntry e bc entry =
     withBatchLock
       (\<lambda>bc. if stopped bc
             then (case SendLogEntry e (client bc) entry of
                     Panics \<Rightarrow> Panics
                   | Blocks s \<Rightarrow> Blocks (bc\<lparr>client := s\<rparr>)
                   | Returns sent \<Rightarrow> Returns (fst sent, bc\<lparr>client := snd sent\<rparr>))
             else
               (let bc = bc\<lparr>batch := batch bc @ [entry]\<rparr>
                in if int (length (batch bc)) \<ge> MaxBatchSize (batchConfig bc)
                   then flushBatchLocked e bc
                   else Returns (None, bc)))
       bc"

definition Flush :: "'f env \<Rightarrow> BatchClient \<Rightarrow> (error option \<times> BatchClient, BatchClient) outcome" where
  "Flush e bc = withBatchLock (flushBatchLocked e) bc"

text \<open>
  \<open>BatchClient.Close\<close>; the first environment serves the final flush, the second the
  close of the client.
\<close>

definition stopTimer :: "BatchClient \<Rightarrow> BatchClient" where
  "stopTimer bc = (case timer bc of None \<Rightarrow> bc | Some t \<Rightarrow> bc\<lparr>timer := Some TimerStopped\<rparr>)"

definition BatchClose :: "'f env \<Rightarrow> 'f env \<Rightarrow> BatchClient \<Rightarrow> (error option \<times> BatchClient, BatchClient) outcome" where
  "BatchClose e e' bc =
     withBatchLock
       (\<lambda>bc. let bc = stopTimer (bc\<lparr>stopped := True\<rparr>);
                 flushed = (if length (batch bc) > 0 then flushBatchLocked e bc
                            else Returns (None, bc))
             in case flushed of
                  Panics \<Rightarrow> Panics
                | Blocks s \<Rightarrow> Blocks s
                | Returns fl \<Rightarrow>
                    (case Close CallerGoroutine (closeResult e') (client (snd fl)) of
                       Panics \<Rightarrow> Panics
                     | Blocks s \<Rightarrow> Blocks ((snd fl)\<lparr>client := s\<rparr>)
                     | Returns shut \<Rightarrow> Returns (fst shut, (snd fl)\<lparr>client := snd shut\<rparr>)))
       bc"

subsection \<open>Scenarios\<close>

text \<open>
  \<open>enqueueAll\<close> calls \<open>sendAsync\<close> once for each payload of a list, in order, with
  no step of the worker in between, and collects what the calls return.
\<close>

fun enqueueAll :: "Client \<Rightarrow> payload list \<Rightarrow> (error option list \<times> Client, Client) outcome" where
  "enqueueAll c [] = Returns ([], c)"
| "enqueueAll c (d # ds) =
     (case sendAsync c d of
        Panics \<Rightarrow> Panics
      | Blocks s \<Rightarrow> Blocks s
      | Returns sent \<Rightarrow>
          (case enqueueAll (snd sent) ds of
             Panics \<Rightarrow> Panics
           | Blocks s \<Rightarrow> Blocks s
           | Returns rest \<Rightarrow> Returns (fst sent # fst rest, snd rest)))"

text \<open>
  The client that \<open>NewClient\<close> builds from the default configuration with a channel
  buffer of \<open>n\<close>, and the same in synchronous mode.
\<close>

definition asyncClient :: "int \<Rightarrow> Client" where
  "asyncClient n =
     \<lparr> config = DefaultConfig\<lparr>ChannelBuffer := n\<rparr>, conn = None,
       asyncChan = Some \<lparr> capacity = nat n, queued = [] \<rparr>, stopChan = Some StopOpen,
       circuitBreaker = newCircuitBreaker, mu = MuFree, worker = WorkerRunning,
       trace = [] \<rparr>"

definition syncClient :: Client where
  "syncClient =
     \<lparr> config = DefaultConfig\<lparr>AsyncMode := False\<rparr>, conn = None,
       asyncChan = None, stopChan = None,
       circuitBreaker = newCircuitBreaker, mu = MuFree, worker = NoWorker,
       trace = [] \<rparr>"

text \<open>
  A log entry, and the default client stuck on it: connected, the entry taken from the
  queue by the worker, the write of it failed, and the worker inside the \<open>Close\<close>
  that the retry loop calls then (the properties below derive this state from
  \<open>NewClient\<close>).
\<close>

definition startedEntry :: LogEntry where
  "startedEntry =
     \<lparr> Metadata = Map.empty, Version = ''1.0'', Payload = ''started'',
       Source = ''app'', Timestamp = ''2024-01-01T00:00:00Z'',
       PayloadType = ''generic'', EntryType = 1, LogLevel = 7 \<rparr>"

definition parkedClient :: Client where
  "parkedClient =
     \<lparr> config = DefaultConfig, conn = Some (NetConn False),
       asyncChan = Some \<lparr> capacity = 1000, queued = [] \<rparr>, stopChan = Some StopClosed,
       circuitBreaker = newCircuitBreaker, mu = MuHeld, worker = WorkerParked,
       trace = [Dial ''unix'' DefaultSocketPath, Marshal (LogEntryData startedEntry),
                SetWriteDeadline, Write (LogEntryData startedEntry)] \<rparr>"

text \<open>
  What \<open>Close\<close> returns on a connection of Go's package \<open>net\<close>: no error the first
  time, \<open>net.ErrClosed\<close> on a handle that is closed already.
\<close>

definition netCloseResult :: "bool \<Rightarrow> error option" where
  "netCloseResult wasClosed =
     (if wasClosed then Some (ExternalError ''use of closed network connection'') else None)"

text \<open>
  Arithmetic without rounding: the operations of the real numbers, and the conversion
  to an integer that cuts the fraction off. It is what \<open>float64\<close> does wherever every
  value in play is a \<open>float64\<close> and every conversion stays in range.
\<close>

definition exactArith :: "real float64ops" where
  "exactArith =
     \<lparr> fromInt = real_of_int, fromConst = (\<lambda>x. x), times64 = (\<lambda>x y. x * y), plus64 = (\<lambda>x y. x + y),
       minus64 = (\<lambda>x y. x - y), greater64 = (\<lambda>x y. x > y),
       toDuration = (\<lambda>x. if 0 \<le> x then \<lfloor>x\<rfloor> else \<lceil>x\<rceil>) \<rparr>"

text \<open>
  An environment in which every dial has the result \<open>dialed\<close> and every write the
  result \<open>written\<close>; serialising and setting the deadline succeed.
\<close>

definition peer :: "error option \<Rightarrow> error option \<Rightarrow> real env" where
  "peer dialed written =
     \<lparr> nowExec = 1000, nowFail = 2000, nowStamp = ''2024-01-01T00:00:00Z'',
       dialResult = (\<lambda>attempt. dialed),
       marshalResult = (\<lambda>attempt. None),
       deadlineResult = (\<lambda>attempt. None),
       writeResult = (\<lambda>attempt. written),
       closeResult = netCloseResult,
       randFloat = (\<lambda>attempt. 1 / 2),
       arith = exactArith \<rparr>"

text \<open>
  The error with which one attempt of the retry loop ends, read off the environment:
  \<open>sendError\<close> is what \<open>sendData\<close> returns, \<open>attemptError\<close> what the whole attempt
  ends with, given whether the client holds a connection when the attempt starts.
  \<open>None\<close> means the attempt succeeds.
\<close>

definition sendError :: "'f env \<Rightarrow> Config \<Rightarrow> int \<Rightarrow> error option" where
  "sendError e cfg a =
     (case marshalResult e a of
        Some err \<Rightarrow> Some (FailedToMarshal err)
      | None \<Rightarrow>
          (case (if Timeout cfg > 0 then deadlineResult e a else None) of
             Some err \<Rightarrow> Some (FailedToSetWriteDeadline err)
           | None \<Rightarrow>
               (case writeResult e a of
                  Some err \<Rightarrow> Some (FailedToWrite err)
                | None \<Rightarrow> None)))"

definition attemptError :: "'f env \<Rightarrow> Config \<Rightarrow> bool \<Rightarrow> int \<Rightarrow> error option" where
  "attemptError e cfg hasConn a =
     (if hasConn then sendError e cfg a
      else (case dialResult e a of
              Some err \<Rightarrow> Some (FailedToConnect (Network cfg) (Address cfg) err)
            | None \<Rightarrow> sendError e cfg a))"

text \<open>The reports to the circuit breaker among the events of a trace.\<close>

definition reports :: "event list \<Rightarrow> event list" where
  "reports evs = filter (\<lambda>ev. ev = ReportSuccess \<or> ev = ReportFailure) evs"

text \<open>
  The calls of \<open>Close\<close> that come back without a panic: the mutex is free, and the
  client is in synchronous mode, or has no stop channel, or the call is on a goroutine
  other than the worker with the stop channel open and the request channel in place.
\<close>

definition closeReturns :: "goroutine \<Rightarrow> Client \<Rightarrow> bool" where
  "closeReturns g c \<longleftrightarrow>
     mu c = MuFree
     \<and> (\<not> AsyncMode (config c) \<or> stopChan c = None
        \<or> (g = CallerGoroutine \<and> stopChan c = Some StopOpen \<and> asyncChan c \<noteq> None))"

section \<open>Properties\<close>

subsection \<open>Circuit breaker\<close>

lemma sint_int32: "- 2147483648 \<le> t \<Longrightarrow> t < 2147483648 \<Longrightarrow> sint (word_of_int t :: 32 word) = t"
  by (simp add: int_word_sint)

lemma sint_succ: 
  assumes "sint (x :: 32 word) < 2147483647"
  shows "sint (x + 1) = sint x + 1"
proof -
  have lo: "- 2147483648 \<le> sint x" using sint_ge [of x] by simp
  have "x + 1 = word_of_int (sint x + 1)" by simp
  then have "sint (x + 1) = sint (word_of_int (sint x + 1) :: 32 word)" by simp
  also have "\<dots> = sint x + 1" using lo assms by (intro sint_int32) auto
  finally show ?thesis .
qed

lemma breakerStep_closed:
  assumes "state (breakerStep cfg cb call) = circuitClosed"
    and "state cb = circuitClosed \<Longrightarrow> 0 \<le> sint (failureCount cb) \<and> (failureCount cb = 0 \<or> sint (failureCount cb) < sint (threshold32 cfg))"
  shows "0 \<le> sint (failureCount (breakerStep cfg cb call)) \<and>
    (failureCount (breakerStep cfg cb call) = 0 \<or> sint (failureCount (breakerStep cfg cb call)) < sint (threshold32 cfg))"
proof (cases call)
  case (CallCanExecute now)
  then show ?thesis using assms
    by (cases "state cb") (auto simp: canExecute_def split: if_splits)
next
  case CallOnSuccess
  then show ?thesis using assms by (auto simp: onSuccess_def split: if_splits)
next
  case (CallOnFailure now)
  with assms(1) have cl: "state cb = circuitClosed" and
     lt: "\<not> sint (threshold32 cfg) \<le> sint (failureCount cb + 1)"
    by (auto simp: onFailure_def Let_def split: if_splits)
  from assms(2) cl have inv: "0 \<le> sint (failureCount cb)" 
     "failureCount cb = 0 \<or> sint (failureCount cb) < sint (threshold32 cfg)" by auto
  have "sint (threshold32 cfg) < 2147483648" using sint_lt [of "threshold32 cfg"] by simp
  with inv have "sint (failureCount cb) < 2147483647" by auto
  then have s: "sint (failureCount cb + 1) = sint (failureCount cb) + 1" by (rule sint_succ)
  show ?thesis using CallOnFailure cl lt s inv by (simp add: onFailure_def Let_def)
qed

lemma breakerAfter_closed:
  "state (breakerAfter cfg calls) = circuitClosed \<Longrightarrow>
     0 \<le> sint (failureCount (breakerAfter cfg calls)) \<and>
     (failureCount (breakerAfter cfg calls) = 0 \<or>
      sint (failureCount (breakerAfter cfg calls)) < sint (threshold32 cfg))"
proof (induction calls rule: rev_induct)
  case Nil
  then show ?case by (simp add: breakerAfter_def newCircuitBreaker_def)
next
  case (snoc call calls)
  have step: "breakerAfter cfg (calls @ [call]) = breakerStep cfg (breakerAfter cfg calls) call"
    by (simp add: breakerAfter_def)
  show ?case unfolding step
    by (rule breakerStep_closed) (use snoc in \<open>auto simp: step\<close>)
qed

lemma closed_no_overflow:
  "state (breakerAfter cfg calls) = circuitClosed \<Longrightarrow>
   sint (failureCount (breakerAfter cfg calls) + 1) = sint (failureCount (breakerAfter cfg calls)) + 1"
proof -
  assume a: "state (breakerAfter cfg calls) = circuitClosed"
  have "sint (threshold32 cfg) < 2147483648" using sint_lt [of "threshold32 cfg"] by simp
  with breakerAfter_closed [OF a] have "sint (failureCount (breakerAfter cfg calls)) < 2147483647" by auto
  then show ?thesis by (rule sint_succ)
qed

text \<open>
  C1, as the claim states it, fails: the code compares the counter with the configured
  threshold converted to \<open>int32\<close>, not with the configured threshold. With a
  configured threshold of \<open>2^32 + 1\<close> the conversion gives 1, and the first failure
  recorded on a new breaker opens it, with the counter at 1, far from the configured
  threshold.
\<close>

theorem threshold_truncated_counterexample:
  "state newCircuitBreaker = circuitClosed
   \<and> failureCount newCircuitBreaker = 0
   \<and> CircuitBreakerThreshold (DefaultConfig\<lparr>CircuitBreakerThreshold := 4294967297\<rparr>)
       = 4294967297
   \<and> state (onFailure (DefaultConfig\<lparr>CircuitBreakerThreshold := 4294967297\<rparr>) 1
              newCircuitBreaker) = circuitOpen
   \<and> sint (failureCount (onFailure (DefaultConfig\<lparr>CircuitBreakerThreshold := 4294967297\<rparr>) 1
              newCircuitBreaker)) = 1"
  by (simp add: newCircuitBreaker_def onFailure_def threshold32_def Let_def)

text \<open>
  C1, amended. In every state the breaker can reach from construction: a failure
  recorded while closed adds one to the failure counter, and the breaker is open
  afterwards exactly when the new count has reached the threshold as the code reads
  it, the configured threshold converted to \<open>int32\<close> (it stays closed otherwise); a
  success recorded while closed only resets the counter; a success recorded while
  half-open closes the breaker with counter 0; a failure recorded while half-open opens
  it. The converted threshold is the configured one whenever that fits 32 bits.
\<close>

theorem circuit_breaker_transition_table:
  assumes reach: "cb = breakerAfter cfg calls"
  shows "(state cb = circuitClosed \<longrightarrow>
            sint (failureCount (onFailure cfg now cb)) = sint (failureCount cb) + 1
          \<and> (state (onFailure cfg now cb) = circuitOpen
               \<longleftrightarrow> sint (threshold32 cfg) \<le> sint (failureCount cb) + 1)
          \<and> (state (onFailure cfg now cb) \<noteq> circuitOpen
               \<longrightarrow> state (onFailure cfg now cb) = circuitClosed)
          \<and> onSuccess cb = cb\<lparr>failureCount := 0\<rparr>)
       \<and> (state cb = circuitHalfOpen \<longrightarrow>
            onSuccess cb = cb\<lparr>state := circuitClosed, failureCount := 0\<rparr>
          \<and> state (onFailure cfg now cb) = circuitOpen)
       \<and> (- 2147483648 \<le> CircuitBreakerThreshold cfg
            \<and> CircuitBreakerThreshold cfg < 2147483648
          \<longrightarrow> sint (threshold32 cfg) = CircuitBreakerThreshold cfg)"
proof -
  have t: "sint (threshold32 cfg) = CircuitBreakerThreshold cfg"
    if "- 2147483648 \<le> CircuitBreakerThreshold cfg" "CircuitBreakerThreshold cfg < 2147483648"
    unfolding threshold32_def using that by (rule sint_int32)
  have closed: "state cb = circuitClosed \<Longrightarrow> sint (failureCount cb + 1) = sint (failureCount cb) + 1"
    unfolding reach by (rule closed_no_overflow)
  show ?thesis
  proof (cases "state cb")
    case circuitClosed
    then show ?thesis using closed t by (simp add: onFailure_def onSuccess_def Let_def)
  next
    case circuitOpen
    then show ?thesis using t by simp
  next
    case circuitHalfOpen
    then show ?thesis using t by (simp add: onFailure_def onSuccess_def Let_def)
  qed
qed

theorem circuit_breaker_transition_table_witness:
  "state (breakerAfter DefaultConfig
            [CallOnFailure 1, CallOnFailure 2, CallOnFailure 3, CallOnFailure 4]) = circuitClosed
   \<and> failureCount (breakerAfter DefaultConfig
            [CallOnFailure 1, CallOnFailure 2, CallOnFailure 3, CallOnFailure 4]) = 4
   \<and> sint (threshold32 DefaultConfig) = 5
   \<and> state (onFailure DefaultConfig 5 (breakerAfter DefaultConfig
            [CallOnFailure 1, CallOnFailure 2, CallOnFailure 3, CallOnFailure 4])) = circuitOpen
   \<and> failureCount (onFailure DefaultConfig 5 (breakerAfter DefaultConfig
            [CallOnFailure 1, CallOnFailure 2, CallOnFailure 3, CallOnFailure 4])) = 5"
  using circuit_breaker_transition_table
          [of "breakerAfter DefaultConfig
                 [CallOnFailure 1, CallOnFailure 2, CallOnFailure 3, CallOnFailure 4]"
              DefaultConfig
              "[CallOnFailure 1, CallOnFailure 2, CallOnFailure 3, CallOnFailure 4]" 5]
  by (simp add: breakerAfter_def newCircuitBreaker_def onFailure_def Let_def DefaultConfig_def
        threshold32_def)

text \<open>
  C5, as the claim states it, fails: an open breaker whose open duration has passed
  lets a first check through and becomes half-open; a second check one nanosecond
  later, with no outcome recorded in between, is let through as well.
\<close>

theorem halfopen_permits_again_counterexample:
  "fst (canExecute DefaultConfig (30 * Second)
          \<lparr> lastFailureTime = 0, state = circuitOpen, failureCount = 5 \<rparr>) = None
   \<and> state (snd (canExecute DefaultConfig (30 * Second)
          \<lparr> lastFailureTime = 0, state = circuitOpen, failureCount = 5 \<rparr>)) = circuitHalfOpen
   \<and> canExecute DefaultConfig (30 * Second + 1)
        (snd (canExecute DefaultConfig (30 * Second)
          \<lparr> lastFailureTime = 0, state = circuitOpen, failureCount = 5 \<rparr>))
      = (None, \<lparr> lastFailureTime = 0, state = circuitHalfOpen, failureCount = 5 \<rparr>)"
  by (simp add: canExecute_def DefaultConfig_def Second_def)

text \<open>
  C5, amended. A check on an open breaker whose open duration has passed permits the
  send and makes the breaker half-open; every check on a half-open breaker permits the
  send and leaves the breaker as it is, so the number of sends let through before an
  outcome is recorded is not bounded by one.
\<close>

theorem canExecute_halfopen_permits:
  "(state cb = circuitOpen \<and> CircuitBreakerTimeout cfg \<le> now - lastFailureTime cb
      \<longrightarrow> canExecute cfg now cb = (None, cb\<lparr>state := circuitHalfOpen\<rparr>))
   \<and> (state cb = circuitHalfOpen \<longrightarrow> canExecute cfg now' cb = (None, cb))"
  by (simp add: canExecute_def)

theorem canExecute_halfopen_permits_witness:
  "canExecute DefaultConfig (30 * Second)
     \<lparr> lastFailureTime = 0, state = circuitOpen, failureCount = 5 \<rparr>
     = (None, \<lparr> lastFailureTime = 0, state = circuitHalfOpen, failureCount = 5 \<rparr>)
   \<and> canExecute DefaultConfig (31 * Second)
     \<lparr> lastFailureTime = 0, state = circuitHalfOpen, failureCount = 5 \<rparr>
     = (None, \<lparr> lastFailureTime = 0, state = circuitHalfOpen, failureCount = 5 \<rparr>)"
  using canExecute_halfopen_permits
          [of "\<lparr> lastFailureTime = 0, state = circuitOpen, failureCount = 5 \<rparr>"
              DefaultConfig "30 * Second"]
        canExecute_halfopen_permits
          [of "\<lparr> lastFailureTime = 0, state = circuitHalfOpen, failureCount = 5 \<rparr>"
              DefaultConfig 0 "31 * Second"]
  by (simp add: DefaultConfig_def Second_def)

subsection \<open>Log entries\<close>

text \<open>
  C10. \<open>WithLogLevel e L\<close> is \<open>e\<close> with the field \<open>LogLevel\<close> set to \<open>L\<close> when
  \<open>1 \<le> L \<le> 8\<close> and to 7 otherwise; no other field changes.
\<close>

theorem WithLogLevel_sets_level:
  "WithLogLevel e L = e\<lparr>LogLevel := (if 1 \<le> L \<and> L \<le> 8 then L else 7)\<rparr>"
  by (auto simp: WithLogLevel_def LevelEmergency_def LevelDebug_def LevelInfo_def Let_def)

theorem WithLogLevel_sets_level_witness:
  "WithLogLevel \<lparr> Metadata = Map.empty, Version = ''1.0'', Payload = ''started'',
                  Source = ''app'', Timestamp = [], PayloadType = ''generic'',
                  EntryType = 1, LogLevel = 7 \<rparr> 4
     = \<lparr> Metadata = Map.empty, Version = ''1.0'', Payload = ''started'',
         Source = ''app'', Timestamp = [], PayloadType = ''generic'',
         EntryType = 1, LogLevel = 4 \<rparr>
   \<and> LogLevel (WithLogLevel \<lparr> Metadata = Map.empty, Version = ''1.0'', Payload = ''started'',
                  Source = ''app'', Timestamp = [], PayloadType = ''generic'',
                  EntryType = 1, LogLevel = 3 \<rparr> 9) = 7"
  using WithLogLevel_sets_level
          [of "\<lparr> Metadata = Map.empty, Version = ''1.0'', Payload = ''started'',
                  Source = ''app'', Timestamp = [], PayloadType = ''generic'',
                  EntryType = 1, LogLevel = 7 \<rparr>" 4]
        WithLogLevel_sets_level
          [of "\<lparr> Metadata = Map.empty, Version = ''1.0'', Payload = ''started'',
                  Source = ''app'', Timestamp = [], PayloadType = ''generic'',
                  EntryType = 1, LogLevel = 3 \<rparr>" 9]
  by simp

subsection \<open>Client\<close>

text \<open>
  C9. On a client whose network is not \<open>tcp\<close>, and on a client whose shared secret is
  empty, \<open>Authenticate\<close> returns an error and the client is exactly as before: nothing
  is dialled, serialised or written, and the breaker is not touched.
\<close>

theorem Authenticate_rejects_locally:
  "(Network (config c) \<noteq> ''tcp'' \<longrightarrow> Authenticate e c = Returns (Inl AuthOnlyForTCP, c))
   \<and> (Network (config c) = ''tcp'' \<and> SharedSecret (config c) = [] \<longrightarrow>
        Authenticate e c = Returns (Inl SharedSecretRequired, c))"
  by (simp add: Authenticate_def)

theorem Authenticate_rejects_locally_witness:
  "Authenticate (peer None None) syncClient = Returns (Inl AuthOnlyForTCP, syncClient)
   \<and> Authenticate (peer None None)
        (syncClient\<lparr>config := (config syncClient)\<lparr>Network := ''tcp''\<rparr>\<rparr>)
      = Returns (Inl SharedSecretRequired,
                 syncClient\<lparr>config := (config syncClient)\<lparr>Network := ''tcp''\<rparr>\<rparr>)"
  using Authenticate_rejects_locally [of syncClient "peer None None"]
        Authenticate_rejects_locally
          [of "syncClient\<lparr>config := (config syncClient)\<lparr>Network := ''tcp''\<rparr>\<rparr>" "peer None None"]
  by (simp add: syncClient_def DefaultConfig_def)

text \<open>
  C3. While the breaker is open and less than the open duration has passed since the
  recorded failure time, \<open>sendWithRetry\<close> returns the breaker's error and the client
  is exactly as before: the connection, the event trace (no dial, no write, no sleep)
  and the breaker with its counter and state are unchanged.
\<close>

theorem sendWithRetry_open_rejects:
  assumes "state (circuitBreaker c) = circuitOpen"
    and "nowExec e - lastFailureTime (circuitBreaker c) < CircuitBreakerTimeout (config c)"
  shows "sendWithRetry g e c d = Returns (Some CircuitBreakerIsOpen, c)"
  using assms by (simp add: sendWithRetry_def canExecute_def)

theorem sendWithRetry_open_rejects_witness:
  "sendWithRetry CallerGoroutine (peer None None)
     (syncClient\<lparr>circuitBreaker :=
        \<lparr> lastFailureTime = 500, state = circuitOpen, failureCount = 5 \<rparr>\<rparr>) NewPingRequest
   = Returns (Some CircuitBreakerIsOpen,
       syncClient\<lparr>circuitBreaker :=
        \<lparr> lastFailureTime = 500, state = circuitOpen, failureCount = 5 \<rparr>\<rparr>)"
  by (rule sendWithRetry_open_rejects)
     (simp_all add: syncClient_def peer_def DefaultConfig_def Second_def)

subsection \<open>The asynchronous queue\<close>

text \<open>
  While no call holds the client's mutex and the worker is not waiting to be handed a
  request, the queue behaves as a bounded buffer: on an empty queue of capacity \<open>N\<close>,
  with no step of the worker in between, \<open>N\<close> calls of \<open>sendAsync\<close> return no error
  and leave their requests in the queue, in order, and one more call returns the
  queue-full error and leaves the client as it was. A worker that waits takes the
  request instead, and the queue stays as it was.
\<close>

lemma sendAsync_room:
  assumes "asyncChan c = Some ch" "stopChan c \<noteq> None" "mu c = MuFree"
    and "worker c \<noteq> WorkerWaiting" "length (queued ch) < capacity ch"
  shows "sendAsync c d =
           Returns (None, c\<lparr>asyncChan :=
                               Some (ch\<lparr>queued := queued ch @ [\<lparr> data = d, respChan = None \<rparr>]\<rparr>)\<rparr>)"
  using assms by (simp add: sendAsync_def Let_def)

lemma sendAsync_full:
  assumes "asyncChan c = Some ch" "stopChan c \<noteq> None" "mu c = MuFree"
    and "worker c \<noteq> WorkerWaiting" "capacity ch \<le> length (queued ch)"
  shows "sendAsync c d = Returns (Some AsyncChannelFull, c)"
  using assms by (simp add: sendAsync_def Let_def)

lemma sendAsync_handed_over:
  assumes "asyncChan c = Some ch" "stopChan c \<noteq> None" "mu c = MuFree"
    and "worker c = WorkerWaiting"
  shows "sendAsync c d =
           Returns (None, c\<lparr>worker := WorkerHandling \<lparr> data = d, respChan = None \<rparr>\<rparr>)"
  using assms by (simp add: sendAsync_def Let_def)

lemma sendAsync_locked:
  assumes "mu c = MuHeld"
  shows "sendAsync c d = Blocks c"
  using assms by (simp add: sendAsync_def)

lemma enqueueAll_room:
  "asyncChan c = Some ch \<Longrightarrow> stopChan c \<noteq> None \<Longrightarrow> mu c = MuFree \<Longrightarrow>
   worker c \<noteq> WorkerWaiting \<Longrightarrow>
   length (queued ch) + length ds \<le> capacity ch \<Longrightarrow>
   enqueueAll c ds =
     Returns (replicate (length ds) None,
      c\<lparr>asyncChan :=
          Some (ch\<lparr>queued := queued ch @ map (\<lambda>d. \<lparr> data = d, respChan = None \<rparr>) ds\<rparr>)\<rparr>)"
proof (induction ds arbitrary: c ch)
  case Nil
  then show ?case by simp
next
  case (Cons d ds)
  let ?ch' = "ch\<lparr>queued := queued ch @ [\<lparr> data = d, respChan = None \<rparr>]\<rparr>"
  let ?c' = "c\<lparr>asyncChan := Some ?ch'\<rparr>"
  have s: "sendAsync c d = Returns (None, ?c')"
    using Cons.prems by (intro sendAsync_room) auto
  have "enqueueAll ?c' ds =
     Returns (replicate (length ds) None,
      ?c'\<lparr>asyncChan :=
            Some (?ch'\<lparr>queued := queued ?ch' @ map (\<lambda>d. \<lparr> data = d, respChan = None \<rparr>) ds\<rparr>)\<rparr>)"
    using Cons.prems by (intro Cons.IH) auto
  then show ?case using s by simp
qed

lemma enqueue_up_to_capacity:
  assumes ch: "asyncChan c = Some \<lparr> capacity = N, queued = [] \<rparr>"
    and st: "stopChan c \<noteq> None" and free: "mu c = MuFree"
    and nw: "worker c \<noteq> WorkerWaiting"
    and len: "length ds = N"
  shows "enqueueAll c ds =
           Returns (replicate N None,
            c\<lparr>asyncChan :=
                Some \<lparr> capacity = N,
                       queued = map (\<lambda>d. \<lparr> data = d, respChan = None \<rparr>) ds \<rparr>\<rparr>)
       \<and> sendAsync
            (c\<lparr>asyncChan :=
                Some \<lparr> capacity = N,
                       queued = map (\<lambda>d. \<lparr> data = d, respChan = None \<rparr>) ds \<rparr>\<rparr>) d
           = Returns (Some AsyncChannelFull,
               c\<lparr>asyncChan :=
                Some \<lparr> capacity = N,
                       queued = map (\<lambda>d. \<lparr> data = d, respChan = None \<rparr>) ds \<rparr>\<rparr>)"
proof -
  have filled: "enqueueAll c ds =
           Returns (replicate N None,
            c\<lparr>asyncChan :=
                Some \<lparr> capacity = N,
                       queued = map (\<lambda>d. \<lparr> data = d, respChan = None \<rparr>) ds \<rparr>\<rparr>)"
    using enqueueAll_room [OF ch st free nw, of ds] len by simp
  have full: "sendAsync
            (c\<lparr>asyncChan :=
                Some \<lparr> capacity = N,
                       queued = map (\<lambda>d. \<lparr> data = d, respChan = None \<rparr>) ds \<rparr>\<rparr>) d
           = Returns (Some AsyncChannelFull,
               c\<lparr>asyncChan :=
                Some \<lparr> capacity = N,
                       queued = map (\<lambda>d. \<lparr> data = d, respChan = None \<rparr>) ds \<rparr>\<rparr>)"
    using st free nw len
    by (intro sendAsync_full
          [where ch = "\<lparr> capacity = N, queued = map (\<lambda>d. \<lparr> data = d, respChan = None \<rparr>) ds \<rparr>"])
       auto
  show ?thesis using filled full by blast
qed

lemma NewClient_async:
  "0 \<le> n \<Longrightarrow> NewClient (Some (DefaultConfig\<lparr>ChannelBuffer := n\<rparr>)) = Returns (asyncClient n)"
  by (simp add: NewClient_def asyncClient_def DefaultConfig_def)

subsection \<open>Closing twice, and closing from the retry loop\<close>

lemma Close_again_on_connection:
  assumes "conn c = Some h"
    and "Close CallerGoroutine onClose c = Returns (r, c1)"
  shows "\<exists>c2. Close CallerGoroutine onClose c1 = Returns (onClose True, c2)"
  using assms
  by (auto simp: Close_def closeConn_def record_event_def split: if_splits option.splits)

lemma Close_never_connected:
  assumes "conn c = None" and "mu c = MuFree"
    and "AsyncMode (config c) \<and> stopChan c \<noteq> None
           \<longrightarrow> stopChan c = Some StopOpen \<and> asyncChan c \<noteq> None"
  shows "\<exists>c1. Close CallerGoroutine onClose c = Returns (None, c1)
           \<and> Close CallerGoroutine onClose c1 = Returns (None, c1)"
proof (cases "AsyncMode (config c) \<and> stopChan c \<noteq> None")
  case True
  with assms obtain ch where ch: "asyncChan c = Some ch" and st: "stopChan c = Some StopOpen"
    by auto
  let ?c1 = "record_event StopWorker (c\<lparr>stopChan := None, asyncChan := None, worker := NoWorker\<rparr>)"
  have "Close CallerGoroutine onClose c = Returns (None, ?c1)"
    using True ch st assms(1,2) by (simp add: Close_def closeConn_def record_event_def)
  moreover have "Close CallerGoroutine onClose ?c1 = Returns (None, ?c1)"
    using assms(1,2) by (simp add: Close_def closeConn_def record_event_def)
  ultimately show ?thesis by blast
next
  case False
  then have "Close CallerGoroutine onClose c = Returns (None, c)"
    using assms(1,2) by (auto simp: Close_def closeConn_def)
  then show ?thesis by blast
qed

lemma Close_caller_returns:
  assumes "mu c = MuFree"
    and "AsyncMode (config c) \<and> stopChan c \<noteq> None
           \<longrightarrow> stopChan c = Some StopOpen \<and> asyncChan c \<noteq> None"
  shows "\<exists>r c1. Close CallerGoroutine onClose c = Returns (r, c1) \<and> mu c1 = MuFree
           \<and> (AsyncMode (config c1) \<and> stopChan c1 \<noteq> None
                 \<longrightarrow> stopChan c1 = Some StopOpen \<and> asyncChan c1 \<noteq> None)"
proof (cases "AsyncMode (config c) \<and> stopChan c \<noteq> None")
  case True
  with assms obtain ch where ch: "asyncChan c = Some ch" and st: "stopChan c = Some StopOpen"
    by auto
  show ?thesis
    using True ch st assms(1)
    by (cases "conn c") (simp_all add: Close_def closeConn_def record_event_def)
next
  case False
  then show ?thesis
    using assms(1)
    by (cases "conn c") (auto simp: Close_def closeConn_def record_event_def)
qed

text \<open>
  C8 fails on a connected client. \<open>Close\<close> leaves the closed handle in the field
  \<open>conn\<close>, so a second \<open>Close\<close> closes that handle again and returns what the handle
  returns then, for a connection of package \<open>net\<close> the error "use of closed network
  connection". The same holds for the batch client, whose \<open>Close\<close> ends with the
  client's. Here: the default client in synchronous mode, connected, closed twice; and a
  batch client around it, closed twice.
\<close>

theorem second_Close_returns_error:
  "(\<exists>c1 c2. Close CallerGoroutine netCloseResult (snd (Connect None syncClient))
               = Returns (None, c1)
          \<and> Close CallerGoroutine netCloseResult c1
               = Returns (Some (ExternalError ''use of closed network connection''), c2))
   \<and> (\<exists>b1 b2. BatchClose (peer None None) (peer None None)
                 \<lparr> client = snd (Connect None syncClient), batchConfig = DefaultBatchConfig,
                   timer = Some TimerArmed, batch = [], batchMu = MuFree, stopped = False \<rparr>
               = Returns (None, b1)
          \<and> BatchClose (peer None None) (peer None None) b1
               = Returns (Some (ExternalError ''use of closed network connection''), b2))"
  by (simp add: Close_def closeConn_def Connect_def record_event_def syncClient_def
        DefaultConfig_def netCloseResult_def BatchClose_def withBatchLock_def stopTimer_def
        peer_def Let_def)

lemma sendWithRetry_worker_blocks:
  assumes async: "AsyncMode (config c)" "stopChan c = Some StopOpen" "mu c = MuFree"
    and connected: "conn c = Some h"
    and permitted: "fst (canExecute (config c) (nowExec e) (circuitBreaker c)) = None"
    and retries: "0 \<le> MaxRetries (config c)"
    and fails: "marshalResult e 0 = None" "deadlineResult e 0 = None" "writeResult e 0 = Some err"
  shows "\<exists>s. sendWithRetry WorkerGoroutine e c d = Blocks s
           \<and> mu s = MuHeld \<and> worker s = WorkerParked \<and> stopChan s = Some StopClosed
           \<and> asyncChan s = asyncChan c
           \<and> circuitBreaker s = snd (canExecute (config c) (nowExec e) (circuitBreaker c))
           \<and> reports (trace s) = reports (trace c)"
  using assms
  by (simp add: sendWithRetry_def retryLoop.simps sendData_def Close_def record_event_def
        reports_def Let_def)

text \<open>
  C2 fails on the worker goroutine. A client in asynchronous mode, connected, takes a log
  entry into its queue; the worker receives it and calls \<open>sendWithRetry\<close>; the write
  fails; the loop then calls \<open>Close\<close>, which in asynchronous mode waits for the worker
  to end, that is for itself. The call never returns: no failure is reported to the
  breaker and no error comes back, and the client is left with its mutex held. Here for
  the default configuration, and for the default configuration with \<open>MaxRetries = 0\<close>,
  where the failed attempt is the only one.
\<close>

theorem worker_send_never_returns:
  "(\<exists>c0 c1 c2 req c3.
       NewClient None = Returns c0
     \<and> Connect None c0 = (None, c1)
     \<and> SendLogEntry (peer None None) c1
           \<lparr> Metadata = Map.empty, Version = ''1.0'', Payload = ''started'',
             Source = ''app'', Timestamp = ''2024-01-01T00:00:00Z'',
             PayloadType = ''generic'', EntryType = 1, LogLevel = 7 \<rparr>
         = Returns (None, c2)
     \<and> receiveRequest c2 = Some (req, c3)
     \<and> workerHandle (peer None (Some (ExternalError ''broken pipe''))) c3 req
         = Blocks parkedClient)
   \<and> (\<exists>c0 c1 c2 req c3.
       NewClient (Some (DefaultConfig\<lparr>MaxRetries := 0\<rparr>)) = Returns c0
     \<and> Connect None c0 = (None, c1)
     \<and> SendLogEntry (peer None None) c1
           \<lparr> Metadata = Map.empty, Version = ''1.0'', Payload = ''started'',
             Source = ''app'', Timestamp = ''2024-01-01T00:00:00Z'',
             PayloadType = ''generic'', EntryType = 1, LogLevel = 7 \<rparr>
         = Returns (None, c2)
     \<and> receiveRequest c2 = Some (req, c3)
     \<and> workerHandle (peer None (Some (ExternalError ''broken pipe''))) c3 req
         = Blocks (parkedClient\<lparr>config := DefaultConfig\<lparr>MaxRetries := 0\<rparr>\<rparr>))
   \<and> mu parkedClient = MuHeld
   \<and> reports (trace parkedClient) = []
   \<and> circuitBreaker parkedClient = newCircuitBreaker"
  by (simp add: NewClient_def Connect_def SendLogEntry_def sendAsync_def receiveRequest_def
        workerHandle_def sendWithRetry_def retryLoop.simps sendData_def Close_def
        record_event_def Let_def canExecute_def newCircuitBreaker_def peer_def parkedClient_def
        setTimestamp_def startedEntry_def DefaultConfig_def Second_def Millisecond_def
        DefaultSocketPath_def reports_def)

text \<open>
  C7 fails after that. Once the worker is stuck in \<open>Close\<close> it holds the client's
  mutex for ever, and \<open>sendAsync\<close> starts by taking that mutex for reading: the next
  enqueue, on a queue of capacity 1000 that is empty, does not return at all, neither
  with success nor with the queue-full error. Here: the default client, connected; one
  entry sent and received by the worker; the write of it fails; then another enqueue.
\<close>

theorem enqueue_blocks_after_failed_write:
  "\<exists>c0 c1 c2 req c3.
       NewClient None = Returns c0
     \<and> Connect None c0 = (None, c1)
     \<and> SendLogEntry (peer None None) c1 startedEntry = Returns (None, c2)
     \<and> receiveRequest c2 = Some (req, c3)
     \<and> workerHandle (peer None (Some (ExternalError ''broken pipe''))) c3 req
         = Blocks parkedClient
     \<and> asyncChan parkedClient = Some \<lparr> capacity = 1000, queued = [] \<rparr>
     \<and> sendAsync parkedClient (LogEntryData startedEntry) = Blocks parkedClient
     \<and> SendLogEntry (peer None None) parkedClient startedEntry = Blocks parkedClient
     \<and> enqueueAll parkedClient [LogEntryData startedEntry, LogEntryData startedEntry]
         = Blocks parkedClient"
  by (simp add: NewClient_def Connect_def SendLogEntry_def sendAsync_def receiveRequest_def
        workerHandle_def sendWithRetry_def retryLoop.simps sendData_def Close_def
        record_event_def Let_def canExecute_def newCircuitBreaker_def peer_def parkedClient_def
        setTimestamp_def startedEntry_def DefaultConfig_def Second_def Millisecond_def
        DefaultSocketPath_def)

subsection \<open>Sending never panics in synchronous mode\<close>

lemma config_record_event [simp]: "config (record_event ev c) = config c"
  by (simp add: record_event_def)

lemma conn_record_event [simp]: "conn (record_event ev c) = conn c"
  by (simp add: record_event_def)

lemma Connect_config [simp]: "config (snd (Connect dialed c)) = config c"
  by (simp add: Connect_def Let_def split: option.splits)

lemma Connect_ok_conn:
  "fst (Connect dialed c) = None \<Longrightarrow> \<exists>h. conn (snd (Connect dialed c)) = Some h"
  by (simp add: Connect_def Let_def split: option.splits)

lemma sendData_returns:
  "conn c \<noteq> None \<Longrightarrow> \<exists>r c'. sendData e a c d = Returns (r, c') \<and> config c' = config c"
  by (auto simp: sendData_def Let_def split: option.splits)

lemma Close_sync_no_panic:
  "\<not> AsyncMode (config c) \<Longrightarrow>
   (\<exists>r c'. Close g onClose c = Returns (r, c') \<and> config c' = config c)
   \<or> (\<exists>s. Close g onClose c = Blocks s)"
  by (auto simp: Close_def closeConn_def split: option.splits)

lemma retryLoop_sync_no_panic:
  "\<not> AsyncMode (config c) \<Longrightarrow> retryLoop g e d a l c \<noteq> Panics"
proof (induction g e d a l c rule: retryLoop.induct)
  case (1 g e d attempt lastErr c)
  show ?case
  proof (cases "attempt \<le> MaxRetries (config c)")
    case False
    then show ?thesis by (subst retryLoop.simps) simp
  next
    case True
    define c1 where "c1 = (if attempt > 0
                   then record_event
                          (Sleep (CalculateBackoffDelay (arith e) (config c) attempt (randFloat e attempt))) c
                   else c)"
    define connected where "connected = (if conn c1 = None then Connect (dialResult e attempt) c1
                          else (None, c1))"
    have cfg1: "config c1 = config c" by (simp add: c1_def)
    have cfg2: "config (snd connected) = config c" by (simp add: connected_def cfg1)
    show ?thesis
    proof (cases "fst connected")
      case (Some err)
      have "retryLoop g e d (attempt + 1) (Some err) (snd connected) \<noteq> Panics"
        using "1.IH"(2) [OF True c1_def connected_def Some] "1.prems" cfg2 by simp
      then show ?thesis
        using True Some by (subst retryLoop.simps) (simp add: c1_def [symmetric] connected_def [symmetric] Let_def)
    next
      case None
      then have "conn (snd connected) \<noteq> None"
        by (auto simp: connected_def Connect_ok_conn split: if_splits)
      then obtain sent where sd: "sendData e attempt (snd connected) d = Returns sent"
        and cfg3: "config (snd sent) = config c"
        using cfg2 sendData_returns [of "snd connected" e attempt d] by auto
      show ?thesis
      proof (cases "fst sent")
        case rNone: None
        then show ?thesis
          using True None sd
          by (subst retryLoop.simps) (simp add: c1_def [symmetric] connected_def [symmetric] Let_def)
      next
        case (Some err)
        have sync: "\<not> AsyncMode (config (snd sent))" using cfg3 "1.prems" by simp
        from Close_sync_no_panic [OF sync, of g "closeResult e"]
        show ?thesis
        proof
          assume "\<exists>r c'. Close g (closeResult e) (snd sent) = Returns (r, c')
                    \<and> config c' = config (snd sent)"
          then obtain shut where cl: "Close g (closeResult e) (snd sent) = Returns shut"
            and cfg4: "config (snd shut) = config (snd sent)"
            by auto
          have "retryLoop g e d (attempt + 1) (Some err) ((snd shut)\<lparr>conn := None\<rparr>) \<noteq> Panics"
            using "1.IH"(1) [OF True c1_def connected_def None sd Some cl] cfg3 cfg4 "1.prems"
            by simp
          then show ?thesis
            using True None sd Some cl
            by (subst retryLoop.simps) (simp add: c1_def [symmetric] connected_def [symmetric] Let_def)
        next
          assume "\<exists>s. Close g (closeResult e) (snd sent) = Blocks s"
          then obtain s where cl: "Close g (closeResult e) (snd sent) = Blocks s" by blast
          show ?thesis
            using True None sd Some cl
            by (subst retryLoop.simps) (simp add: c1_def [symmetric] connected_def [symmetric] Let_def)
        qed
      qed
    qed
  qed
qed

lemma sendWithRetry_sync_no_panic:
  assumes "\<not> AsyncMode (config c)"
  shows "sendWithRetry g e c d \<noteq> Panics"
proof (cases "fst (canExecute (config c) (nowExec e) (circuitBreaker c))")
  case None
  have "\<not> AsyncMode (config (c\<lparr>circuitBreaker :=
          snd (canExecute (config c) (nowExec e) (circuitBreaker c))\<rparr>))"
    using assms by simp
  from retryLoop_sync_no_panic [OF this] None show ?thesis
    by (simp add: sendWithRetry_def Let_def)
next
  case (Some err)
  then show ?thesis by (simp add: sendWithRetry_def Let_def)
qed

lemma sendAsync_no_panic: "sendAsync c d \<noteq> Panics"
  by (simp add: sendAsync_def Let_def split: option.splits)

lemma SendLogBatch_no_panic: "SendLogBatch e c entries \<noteq> Panics"
proof (cases "AsyncMode (config c)")
  case True
  then show ?thesis by (simp add: SendLogBatch_def Let_def sendAsync_no_panic)
next
  case False
  then show ?thesis by (simp add: SendLogBatch_def Let_def sendWithRetry_sync_no_panic)
qed

subsection \<open>The retry loop where closing returns\<close>

text \<open>
  Where \<open>Close\<close> comes back (\<open>closeReturns\<close>), the loop reports once and returns:
  a failure and the error with the attempt count and the last error when every attempt
  fails, a success and no error at the first attempt that succeeds.
\<close>

lemma reports_append [simp]: "reports (xs @ ys) = reports xs @ reports ys"
  by (simp add: reports_def)

lemma reports_Nil [simp]: "reports [] = []"
  by (simp add: reports_def)

lemma reports_Cons [simp]:
  "reports (ev # evs) =
     (if ev = ReportSuccess \<or> ev = ReportFailure then ev # reports evs else reports evs)"
  by (simp add: reports_def)

lemma sendData_sendError:
  assumes "conn c = Some h"
  shows "\<exists>c'. sendData e a c d = Returns (sendError e (config c) a, c')
           \<and> config c' = config c \<and> conn c' = conn c
           \<and> circuitBreaker c' = circuitBreaker c
           \<and> stopChan c' = stopChan c \<and> asyncChan c' = asyncChan c
           \<and> mu c' = mu c
           \<and> reports (trace c') = reports (trace c)"
  using assms
  by (auto simp: sendData_def sendError_def record_event_def Let_def split: option.splits)

lemma closeConn_frame:
  "\<exists>r c'. closeConn onClose c = Returns (r, c')
      \<and> config c' = config c
      \<and> circuitBreaker c' = circuitBreaker c
      \<and> stopChan c' = stopChan c
      \<and> mu c' = mu c
      \<and> reports (trace c') = reports (trace c)"
  by (cases "conn c") (simp_all add: closeConn_def record_event_def)

lemma Close_closeReturns:
  assumes "closeReturns g c"
  shows "\<exists>r c'. Close g onClose c = Returns (r, c')
           \<and> config c' = config c
           \<and> circuitBreaker c' = circuitBreaker c
           \<and> (\<not> AsyncMode (config c) \<or> stopChan c' = None)
           \<and> mu c' = MuFree
           \<and> reports (trace c') = reports (trace c)"
proof (cases "AsyncMode (config c) \<and> stopChan c \<noteq> None")
  case True
  with assms obtain ch where g: "g = CallerGoroutine" and ch: "asyncChan c = Some ch"
    and st: "stopChan c = Some StopOpen" and free: "mu c = MuFree"
    by (auto simp: closeReturns_def)
  let ?c = "record_event StopWorker (c\<lparr>stopChan := None, asyncChan := None, worker := NoWorker\<rparr>)"
  have "Close g onClose c = closeConn onClose ?c"
    unfolding Close_def using True g ch st free by simp
  with closeConn_frame [of onClose ?c] free show ?thesis
    by (auto simp: record_event_def)
next
  case False
  from assms have free: "mu c = MuFree" by (simp add: closeReturns_def)
  have "Close g onClose c = closeConn onClose c"
    unfolding Close_def using False free by auto
  moreover have "\<not> AsyncMode (config c) \<or> stopChan c = None"
    using False by blast
  ultimately show ?thesis
    using closeConn_frame [of onClose c] free by auto
qed

lemma retryLoop_done:
  assumes "\<not> attempt \<le> MaxRetries (config c)"
  shows "retryLoop g e d attempt lastErr c =
           Returns (Some (FailedToSendAfter (MaxRetries (config c) + 1) lastErr),
             record_event ReportFailure
               (c\<lparr>circuitBreaker := onFailure (config c) (nowFail e) (circuitBreaker c)\<rparr>))"
  using assms by (subst retryLoop.simps) simp

lemma retryLoop_attempt_fails:
  assumes le: "attempt \<le> MaxRetries (config c)"
    and cr: "closeReturns g c"
    and err: "attemptError e (config c) (conn c \<noteq> None) attempt = Some err"
  shows "\<exists>c'. retryLoop g e d attempt lastErr c = retryLoop g e d (attempt + 1) (Some err) c'
           \<and> config c' = config c \<and> conn c' = None
           \<and> circuitBreaker c' = circuitBreaker c
           \<and> closeReturns g c'
           \<and> reports (trace c') = reports (trace c)"
proof -
  define c1 where "c1 = (if attempt > 0
                   then record_event
                          (Sleep (CalculateBackoffDelay (arith e) (config c) attempt (randFloat e attempt))) c
                   else c)"
  define connected where "connected = (if conn c1 = None then Connect (dialResult e attempt) c1
                          else (None, c1))"
  have c1: "config c1 = config c" "conn c1 = conn c" "circuitBreaker c1 = circuitBreaker c"
    "stopChan c1 = stopChan c" "asyncChan c1 = asyncChan c" "reports (trace c1) = reports (trace c)"
    "mu c1 = mu c"
    by (simp_all add: c1_def record_event_def)
  have unfold: "retryLoop g e d attempt lastErr c =
     (case fst connected of
              Some err \<Rightarrow> retryLoop g e d (attempt + 1) (Some err) (snd connected)
            | None \<Rightarrow>
                (case sendData e attempt (snd connected) d of
                   Panics \<Rightarrow> Panics
                 | Blocks s \<Rightarrow> Blocks s
                 | Returns sent \<Rightarrow>
                     (case fst sent of
                        Some err \<Rightarrow>
                          (case Close g (closeResult e) (snd sent) of
                             Panics \<Rightarrow> Panics
                           | Blocks s \<Rightarrow> Blocks s
                           | Returns shut \<Rightarrow>
                               retryLoop g e d (attempt + 1) (Some err)
                                 ((snd shut)\<lparr>conn := None\<rparr>))
                      | None \<Rightarrow>
                          Returns (None,
                            record_event ReportSuccess
                              ((snd sent)\<lparr>circuitBreaker :=
                                  onSuccess (circuitBreaker (snd sent))\<rparr>)))))"
    unfolding c1_def connected_def
    using le by (subst retryLoop.simps) (simp only: Let_def if_True)
  show ?thesis
  proof (cases "fst connected")
    case (Some err')
    then have dial: "conn c = None" "dialResult e attempt \<noteq> None"
      and c2: "snd connected = (record_event (Dial (Network (config c)) (Address (config c))) c1)\<lparr>conn := None\<rparr>"
      and e': "err' = FailedToConnect (Network (config c)) (Address (config c)) (the (dialResult e attempt))"
      using c1 by (auto simp: connected_def Connect_def Let_def split: if_splits option.splits)
    have "err' = err"
      using err dial e' by (auto simp: attemptError_def)
    moreover have "closeReturns g (snd connected)"
      using cr c1 by (simp add: c2 closeReturns_def record_event_def)
    ultimately show ?thesis
      using unfold Some c1 by (intro exI [of _ "snd connected"]) (simp add: c2 record_event_def)
  next
    case None
    then obtain h where h: "conn (snd connected) = Some h"
      and c2: "config (snd connected) = config c" "circuitBreaker (snd connected) = circuitBreaker c"
        "stopChan (snd connected) = stopChan c" "asyncChan (snd connected) = asyncChan c"
        "reports (trace (snd connected)) = reports (trace c)" "mu (snd connected) = mu c"
      and se: "attemptError e (config c) (conn c \<noteq> None) attempt = sendError e (config c) attempt"
      using c1
      by (auto simp: connected_def Connect_def attemptError_def record_event_def Let_def
               split: if_splits option.splits)
    from sendData_sendError [OF h, of e attempt d] c2
    obtain c3 where sd: "sendData e attempt (snd connected) d = Returns (Some err, c3)"
      and c3: "config c3 = config c" "circuitBreaker c3 = circuitBreaker c"
        "stopChan c3 = stopChan c" "asyncChan c3 = asyncChan c"
        "reports (trace c3) = reports (trace c)" "mu c3 = mu c"
      using se err by auto
    have "closeReturns g c3" using cr c3 by (simp add: closeReturns_def)
    from Close_closeReturns [OF this, of "closeResult e"] c3
    obtain r c4 where cl: "Close g (closeResult e) c3 = Returns (r, c4)"
      and c4: "config c4 = config c" "circuitBreaker c4 = circuitBreaker c"
        "\<not> AsyncMode (config c) \<or> stopChan c4 = None"
        "reports (trace c4) = reports (trace c)" "mu c4 = MuFree"
      by auto
    have "closeReturns g (c4\<lparr>conn := None\<rparr>)"
      using c4 by (auto simp: closeReturns_def)
    then show ?thesis
      using unfold None sd cl c4 by (intro exI [of _ "c4\<lparr>conn := None\<rparr>"]) simp
  qed
qed

lemma retryLoop_attempt_succeeds:
  assumes le: "attempt \<le> MaxRetries (config c)"
    and ok: "attemptError e (config c) (conn c \<noteq> None) attempt = None"
  shows "\<exists>c'. retryLoop g e d attempt lastErr c = Returns (None, c')
           \<and> circuitBreaker c' = onSuccess (circuitBreaker c)
           \<and> reports (trace c') = reports (trace c) @ [ReportSuccess]"
proof -
  define c1 where "c1 = (if attempt > 0
                   then record_event
                          (Sleep (CalculateBackoffDelay (arith e) (config c) attempt (randFloat e attempt))) c
                   else c)"
  define connected where "connected = (if conn c1 = None then Connect (dialResult e attempt) c1
                          else (None, c1))"
  have c1: "config c1 = config c" "conn c1 = conn c" "circuitBreaker c1 = circuitBreaker c"
    "reports (trace c1) = reports (trace c)"
    by (simp_all add: c1_def record_event_def)
  have n: "fst connected = None"
    using ok c1
    by (auto simp: connected_def Connect_def attemptError_def Let_def
             split: option.splits if_splits)
  then obtain h where h: "conn (snd connected) = Some h"
    and c2: "config (snd connected) = config c" "circuitBreaker (snd connected) = circuitBreaker c"
      "reports (trace (snd connected)) = reports (trace c)"
    and se: "sendError e (config c) attempt = None"
    using c1 ok
    by (auto simp: connected_def Connect_def attemptError_def record_event_def Let_def
             split: if_splits option.splits)
  from sendData_sendError [OF h, of e attempt d] c2 se
  obtain c3 where sd: "sendData e attempt (snd connected) d = Returns (None, c3)"
    and c3: "circuitBreaker c3 = circuitBreaker c" "reports (trace c3) = reports (trace c)"
    by auto
  have "retryLoop g e d attempt lastErr c =
          Returns (None, record_event ReportSuccess
                           (c3\<lparr>circuitBreaker := onSuccess (circuitBreaker c3)\<rparr>))"
    using le n sd unfolding c1_def connected_def
    by (subst retryLoop.simps) (simp add: Let_def)
  then show ?thesis
    using c3 by (simp add: record_event_def)
qed

lemma retryLoop_exhausted:
  assumes "closeReturns g c"
    and "\<forall>a. attempt \<le> a \<and> a \<le> MaxRetries (config c) \<longrightarrow>
           attemptError e (config c) (a = attempt \<and> conn c \<noteq> None) a \<noteq> None"
  shows "\<exists>c'. retryLoop g e d attempt lastErr c =
             Returns (Some (FailedToSendAfter (MaxRetries (config c) + 1)
                        (if attempt \<le> MaxRetries (config c)
                         then attemptError e (config c)
                                (MaxRetries (config c) = attempt \<and> conn c \<noteq> None)
                                (MaxRetries (config c))
                         else lastErr)), c')
           \<and> circuitBreaker c' = onFailure (config c) (nowFail e) (circuitBreaker c)
           \<and> reports (trace c') = reports (trace c) @ [ReportFailure]"
  using assms
proof (induction "nat (MaxRetries (config c) + 1 - attempt)" arbitrary: attempt lastErr c)
  case 0
  then have "\<not> attempt \<le> MaxRetries (config c)" by simp
  then show ?case
    by (simp add: retryLoop_done record_event_def)
next
  case (Suc n)
  then have le: "attempt \<le> MaxRetries (config c)" by simp
  with Suc.prems(2) obtain err where
    err: "attemptError e (config c) (conn c \<noteq> None) attempt = Some err"
    by (cases "attemptError e (config c) (conn c \<noteq> None) attempt") auto
  from retryLoop_attempt_fails [OF le Suc.prems(1) err, of d lastErr]
  obtain c1 where step: "retryLoop g e d attempt lastErr c = retryLoop g e d (attempt + 1) (Some err) c1"
    and c1: "config c1 = config c" "conn c1 = None" "circuitBreaker c1 = circuitBreaker c"
      "closeReturns g c1" "reports (trace c1) = reports (trace c)"
    by blast
  have n: "n = nat (MaxRetries (config c1) + 1 - (attempt + 1))"
    using Suc.hyps(2) c1 by simp
  have later: "\<forall>a. attempt + 1 \<le> a \<and> a \<le> MaxRetries (config c1) \<longrightarrow>
           attemptError e (config c1) (a = attempt + 1 \<and> conn c1 \<noteq> None) a \<noteq> None"
  proof (intro allI impI)
    fix a assume a: "attempt + 1 \<le> a \<and> a \<le> MaxRetries (config c1)"
    have f: "(a = attempt \<and> conn c \<noteq> None) = False" using a by simp
    have f1: "(a = attempt + 1 \<and> conn c1 \<noteq> None) = False" using c1(2) by simp
    have "attempt \<le> a \<and> a \<le> MaxRetries (config c)" using a c1(1) by simp
    then have "attemptError e (config c) (a = attempt \<and> conn c \<noteq> None) a \<noteq> None"
      by (rule Suc.prems(2) [rule_format])
    then show "attemptError e (config c1) (a = attempt + 1 \<and> conn c1 \<noteq> None) a \<noteq> None"
      by (simp only: f f1 c1(1) simp_thms)
  qed
  from Suc.hyps(1) [OF n c1(4) later, of "Some err"]
  obtain c' where r: "retryLoop g e d (attempt + 1) (Some err) c1 =
             Returns (Some (FailedToSendAfter (MaxRetries (config c1) + 1)
                        (if attempt + 1 \<le> MaxRetries (config c1)
                         then attemptError e (config c1)
                                (MaxRetries (config c1) = attempt + 1 \<and> conn c1 \<noteq> None)
                                (MaxRetries (config c1))
                         else Some err)), c')"
    and c': "circuitBreaker c' = onFailure (config c1) (nowFail e) (circuitBreaker c1)"
      "reports (trace c') = reports (trace c1) @ [ReportFailure]"
    by blast
  have last: "(if attempt + 1 \<le> MaxRetries (config c1)
                         then attemptError e (config c1)
                                (MaxRetries (config c1) = attempt + 1 \<and> conn c1 \<noteq> None)
                                (MaxRetries (config c1))
                         else Some err)
            = attemptError e (config c)
                                (MaxRetries (config c) = attempt \<and> conn c \<noteq> None)
                                (MaxRetries (config c))"
  proof (cases "attempt = MaxRetries (config c)")
    case True
    then show ?thesis using err c1 by simp
  next
    case False
    then have "attempt + 1 \<le> MaxRetries (config c)" using le by simp
    then show ?thesis using c1 False by simp
  qed
  show ?case
    using step r c' c1 le last by simp
qed

lemma retryLoop_first_success:
  assumes "attempt \<le> k" and "k \<le> MaxRetries (config c)"
    and "closeReturns g c"
    and "\<forall>a. attempt \<le> a \<and> a < k \<longrightarrow>
           attemptError e (config c) (a = attempt \<and> conn c \<noteq> None) a \<noteq> None"
    and "attemptError e (config c) (k = attempt \<and> conn c \<noteq> None) k = None"
  shows "\<exists>c'. retryLoop g e d attempt lastErr c = Returns (None, c')
           \<and> circuitBreaker c' = onSuccess (circuitBreaker c)
           \<and> reports (trace c') = reports (trace c) @ [ReportSuccess]"
  using assms
proof (induction "nat (k - attempt)" arbitrary: attempt lastErr c)
  case 0
  then have "attempt = k" by simp
  with "0.prems" show ?case
    using retryLoop_attempt_succeeds [of attempt c e g d lastErr] by simp
next
  case (Suc n)
  then have lt: "attempt < k" and le: "attempt \<le> MaxRetries (config c)" by simp_all
  with Suc.prems(4) obtain err where
    err: "attemptError e (config c) (conn c \<noteq> None) attempt = Some err"
    by (cases "attemptError e (config c) (conn c \<noteq> None) attempt") auto
  from retryLoop_attempt_fails [OF le Suc.prems(3) err, of d lastErr]
  obtain c1 where step: "retryLoop g e d attempt lastErr c = retryLoop g e d (attempt + 1) (Some err) c1"
    and c1: "config c1 = config c" "conn c1 = None" "circuitBreaker c1 = circuitBreaker c"
      "closeReturns g c1" "reports (trace c1) = reports (trace c)"
    by blast
  have n: "n = nat (k - (attempt + 1))" using Suc.hyps(2) by simp
  have a1: "attempt + 1 \<le> k" using lt by simp
  have a2: "k \<le> MaxRetries (config c1)" using Suc.prems(2) c1 by simp
  have later: "\<forall>a. attempt + 1 \<le> a \<and> a < k \<longrightarrow>
           attemptError e (config c1) (a = attempt + 1 \<and> conn c1 \<noteq> None) a \<noteq> None"
  proof (intro allI impI)
    fix a assume a: "attempt + 1 \<le> a \<and> a < k"
    have f: "(a = attempt \<and> conn c \<noteq> None) = False" using a by simp
    have f1: "(a = attempt + 1 \<and> conn c1 \<noteq> None) = False" using c1(2) by simp
    have "attempt \<le> a \<and> a < k" using a by simp
    then have "attemptError e (config c) (a = attempt \<and> conn c \<noteq> None) a \<noteq> None"
      by (rule Suc.prems(4) [rule_format])
    then show "attemptError e (config c1) (a = attempt + 1 \<and> conn c1 \<noteq> None) a \<noteq> None"
      by (simp only: f f1 c1(1) simp_thms)
  qed
  have f: "(k = attempt \<and> conn c \<noteq> None) = False" using lt by simp
  have f1: "(k = attempt + 1 \<and> conn c1 \<noteq> None) = False" using c1(2) by simp
  have ok: "attemptError e (config c1) (k = attempt + 1 \<and> conn c1 \<noteq> None) k = None"
    using Suc.prems(5) by (simp only: f f1 c1(1) simp_thms)
  from Suc.hyps(1) [OF n a1 a2 c1(4) later ok, of "Some err"] step c1
  show ?case by simp
qed

lemma sendWithRetry_permitted:
  assumes "fst (canExecute (config c) (nowExec e) (circuitBreaker c)) = None"
  shows "sendWithRetry g e c d =
           retryLoop g e d 0 None
             (c\<lparr>circuitBreaker := snd (canExecute (config c) (nowExec e) (circuitBreaker c))\<rparr>)"
  using assms by (simp add: sendWithRetry_def Let_def)

lemma sendWithRetry_exhausted:
  assumes permit: "fst (canExecute (config c) (nowExec e) (circuitBreaker c)) = None"
    and cr: "closeReturns g c"
    and fails: "\<forall>a. 0 \<le> a \<and> a \<le> MaxRetries (config c) \<longrightarrow>
           attemptError e (config c) (a = 0 \<and> conn c \<noteq> None) a \<noteq> None"
  shows "\<exists>c'. sendWithRetry g e c d =
             Returns (Some (FailedToSendAfter (MaxRetries (config c) + 1)
                        (if 0 \<le> MaxRetries (config c)
                         then attemptError e (config c)
                                (MaxRetries (config c) = 0 \<and> conn c \<noteq> None)
                                (MaxRetries (config c))
                         else None)), c')
           \<and> circuitBreaker c' =
               onFailure (config c) (nowFail e)
                 (snd (canExecute (config c) (nowExec e) (circuitBreaker c)))
           \<and> reports (trace c') = reports (trace c) @ [ReportFailure]"
proof -
  let ?c = "c\<lparr>circuitBreaker := snd (canExecute (config c) (nowExec e) (circuitBreaker c))\<rparr>"
  have cr': "closeReturns g ?c" using cr by (simp add: closeReturns_def)
  have fails': "\<forall>a. 0 \<le> a \<and> a \<le> MaxRetries (config ?c) \<longrightarrow>
           attemptError e (config ?c) (a = 0 \<and> conn ?c \<noteq> None) a \<noteq> None"
    using fails by simp
  have sel: "config ?c = config c" "conn ?c = conn c" "trace ?c = trace c"
    "circuitBreaker ?c = snd (canExecute (config c) (nowExec e) (circuitBreaker c))"
    by simp_all
  from retryLoop_exhausted [OF cr' fails', of d None]
  show ?thesis
    unfolding sendWithRetry_permitted [OF permit, of g d] sel by (simp only: simp_thms)
qed

lemma sendWithRetry_first_success:
  assumes permit: "fst (canExecute (config c) (nowExec e) (circuitBreaker c)) = None"
    and cr: "closeReturns g c"
    and k: "0 \<le> k" "k \<le> MaxRetries (config c)"
    and fails: "\<forall>a. 0 \<le> a \<and> a < k \<longrightarrow>
           attemptError e (config c) (a = 0 \<and> conn c \<noteq> None) a \<noteq> None"
    and ok: "attemptError e (config c) (k = 0 \<and> conn c \<noteq> None) k = None"
  shows "\<exists>c'. sendWithRetry g e c d = Returns (None, c')
           \<and> circuitBreaker c' =
               onSuccess (snd (canExecute (config c) (nowExec e) (circuitBreaker c)))
           \<and> reports (trace c') = reports (trace c) @ [ReportSuccess]"
proof -
  let ?c = "c\<lparr>circuitBreaker := snd (canExecute (config c) (nowExec e) (circuitBreaker c))\<rparr>"
  have cr': "closeReturns g ?c" using cr by (simp add: closeReturns_def)
  have k': "k \<le> MaxRetries (config ?c)" using k by simp
  have fails': "\<forall>a. 0 \<le> a \<and> a < k \<longrightarrow>
           attemptError e (config ?c) (a = 0 \<and> conn ?c \<noteq> None) a \<noteq> None"
    using fails by simp
  have ok': "attemptError e (config ?c) (k = 0 \<and> conn ?c \<noteq> None) k = None"
    using ok by simp
  have sel: "config ?c = config c" "conn ?c = conn c" "trace ?c = trace c"
    "circuitBreaker ?c = snd (canExecute (config c) (nowExec e) (circuitBreaker c))"
    by simp_all
  from retryLoop_first_success [OF k(1) k' cr' fails' ok', of d None]
  show ?thesis
    unfolding sendWithRetry_permitted [OF permit, of g d] sel .
qed

subsection \<open>Batch client\<close>

lemma flushBatchLocked_nonempty:
  assumes "batch bc \<noteq> []"
  shows "flushBatchLocked e bc =
           sendBatchCopy e (batch bc)
             (bc\<lparr>batch := [],
                 timer := (if AutoFlush (batchConfig bc) \<and> \<not> stopped bc
                           then Some TimerArmed else timer bc)\<rparr>)"
  using assms by (simp add: flushBatchLocked_def startFlushTimerLocked_def Let_def)

lemma flushBatchLocked_outcome:
  assumes ne: "batch bc \<noteq> []"
  shows "(\<exists>r bc'. flushBatchLocked e bc = Returns (r, bc') \<and> batch bc' = []
            \<and> batchMu bc' = batchMu bc
            \<and> SendLogBatch e (client bc) (batch bc) = Returns (r, client bc'))
       \<or> (\<exists>bc'. flushBatchLocked e bc = Blocks bc' \<and> batch bc' = []
            \<and> SendLogBatch e (client bc) (batch bc) = Blocks (client bc'))"
proof (cases "SendLogBatch e (client bc) (batch bc)")
  case (Returns sent)
  then have "flushBatchLocked e bc =
      Returns (fst sent,
        bc\<lparr>batch := [],
           timer := (if AutoFlush (batchConfig bc) \<and> \<not> stopped bc
                     then Some TimerArmed else timer bc),
           client := snd sent\<rparr>)"
    by (simp add: flushBatchLocked_nonempty [OF ne] sendBatchCopy_def)
  with Returns show ?thesis by simp
next
  case Panics
  then show ?thesis using SendLogBatch_no_panic [of e "client bc" "batch bc"] by simp
next
  case (Blocks s)
  then have "flushBatchLocked e bc =
      Blocks (bc\<lparr>batch := [],
           timer := (if AutoFlush (batchConfig bc) \<and> \<not> stopped bc
                     then Some TimerArmed else timer bc),
           client := s\<rparr>)"
    by (simp add: flushBatchLocked_nonempty [OF ne] sendBatchCopy_def)
  with Blocks show ?thesis by simp
qed

text \<open>
  Where \<open>SendLogEntry\<close> of the batch client does not append: it waits for ever at a
  mutex that is held for ever, and on a stopped batch client it sends the entry
  directly. Below the maximum size it appends and returns.
\<close>

lemma BatchSendLogEntry_locked:
  "batchMu bc = MuHeld \<Longrightarrow> BatchSendLogEntry e bc entry = Blocks bc"
  by (simp add: BatchSendLogEntry_def withBatchLock_def)

lemma BatchSendLogEntry_stopped:
  "stopped bc \<Longrightarrow> batchMu bc = MuFree \<Longrightarrow>
   BatchSendLogEntry e bc entry =
     (case SendLogEntry e (client bc) entry of
        Panics \<Rightarrow> Panics
      | Blocks s \<Rightarrow> Blocks (bc\<lparr>client := s, batchMu := MuHeld\<rparr>)
      | Returns sent \<Rightarrow> Returns (fst sent, bc\<lparr>client := snd sent\<rparr>))"
  by (simp add: BatchSendLogEntry_def withBatchLock_def split: outcome.splits)

lemma BatchSendLogEntry_below_max:
  "\<not> stopped bc \<Longrightarrow> batchMu bc = MuFree \<Longrightarrow>
   int (length (batch bc)) + 1 < MaxBatchSize (batchConfig bc) \<Longrightarrow>
   BatchSendLogEntry e bc entry = Returns (None, bc\<lparr>batch := batch bc @ [entry]\<rparr>)"
  by (simp add: BatchSendLogEntry_def withBatchLock_def Let_def)

text \<open>
  C6. A flush of a non-empty buffer hands the whole buffer to \<open>SendLogBatch\<close> and
  has that call's outcome. If the call returns, with an error or without, the flush
  returns the same and the buffer is empty; if the call never returns, the flush never
  returns and the buffer it leaves behind is empty: the buffer is cleared before the
  send, and nothing puts the entries back. An append to a running batch client that
  brings the buffer to the maximum size is one locked flush of the buffer with the new
  entry, and the buffer is empty afterwards, whether the flush returns or not. (An
  append takes place on a batch client that is running and whose mutex is not held for
  ever, see above.)
\<close>

theorem flush_clears_buffer:
  "(batch bc \<noteq> [] \<longrightarrow>
      ((\<exists>r bc'. flushBatchLocked e bc = Returns (r, bc') \<and> batch bc' = []
            \<and> SendLogBatch e (client bc) (batch bc) = Returns (r, client bc'))
       \<or> (\<exists>bc'. flushBatchLocked e bc = Blocks bc' \<and> batch bc' = []
            \<and> SendLogBatch e (client bc) (batch bc) = Blocks (client bc'))))
   \<and> (\<not> stopped bc \<and> batchMu bc = MuFree
        \<and> MaxBatchSize (batchConfig bc) \<le> int (length (batch bc)) + 1 \<longrightarrow>
        BatchSendLogEntry e bc entry
          = withBatchLock (flushBatchLocked e) (bc\<lparr>batch := batch bc @ [entry]\<rparr>)
      \<and> ((\<exists>r bc'. BatchSendLogEntry e bc entry = Returns (r, bc') \<and> batch bc' = []
              \<and> batchMu bc' = MuFree)
         \<or> (\<exists>bc'. BatchSendLogEntry e bc entry = Blocks bc' \<and> batch bc' = []
              \<and> batchMu bc' = MuHeld)))"
proof (intro conjI impI)
  assume ne: "batch bc \<noteq> []"
  from flushBatchLocked_outcome [OF ne, of e]
  show "(\<exists>r bc'. flushBatchLocked e bc = Returns (r, bc') \<and> batch bc' = []
            \<and> SendLogBatch e (client bc) (batch bc) = Returns (r, client bc'))
       \<or> (\<exists>bc'. flushBatchLocked e bc = Blocks bc' \<and> batch bc' = []
            \<and> SendLogBatch e (client bc) (batch bc) = Blocks (client bc'))"
    by blast
next
  assume a: "\<not> stopped bc \<and> batchMu bc = MuFree
        \<and> MaxBatchSize (batchConfig bc) \<le> int (length (batch bc)) + 1"
  let ?bc = "bc\<lparr>batch := batch bc @ [entry]\<rparr>"
  from a show eq: "BatchSendLogEntry e bc entry = withBatchLock (flushBatchLocked e) ?bc"
    by (simp add: BatchSendLogEntry_def withBatchLock_def Let_def)
  have ne: "batch ?bc \<noteq> []" by simp
  have free: "batchMu ?bc = MuFree" using a by simp
  from flushBatchLocked_outcome [OF ne, of e]
  show "(\<exists>r bc'. BatchSendLogEntry e bc entry = Returns (r, bc') \<and> batch bc' = []
              \<and> batchMu bc' = MuFree)
         \<or> (\<exists>bc'. BatchSendLogEntry e bc entry = Blocks bc' \<and> batch bc' = []
              \<and> batchMu bc' = MuHeld)"
  proof
    assume "\<exists>r bc'. flushBatchLocked e ?bc = Returns (r, bc') \<and> batch bc' = []
            \<and> batchMu bc' = batchMu ?bc
            \<and> SendLogBatch e (client ?bc) (batch ?bc) = Returns (r, client bc')"
    then obtain r bc' where "flushBatchLocked e ?bc = Returns (r, bc')" "batch bc' = []"
      "batchMu bc' = MuFree"
      using free by auto
    then have "BatchSendLogEntry e bc entry = Returns (r, bc') \<and> batch bc' = []
              \<and> batchMu bc' = MuFree"
      unfolding eq using free by (simp add: withBatchLock_def)
    then show ?thesis by blast
  next
    assume "\<exists>bc'. flushBatchLocked e ?bc = Blocks bc' \<and> batch bc' = []
            \<and> SendLogBatch e (client ?bc) (batch ?bc) = Blocks (client bc')"
    then obtain bc' where "flushBatchLocked e ?bc = Blocks bc'" "batch bc' = []"
      by auto
    then have "BatchSendLogEntry e bc entry = Blocks (bc'\<lparr>batchMu := MuHeld\<rparr>)
              \<and> batch (bc'\<lparr>batchMu := MuHeld\<rparr>) = []
              \<and> batchMu (bc'\<lparr>batchMu := MuHeld\<rparr>) = MuHeld"
      unfolding eq using free by (simp add: withBatchLock_def)
    then show ?thesis by blast
  qed
qed

theorem flush_clears_buffer_witness:
  "flushBatchLocked (peer (Some (ExternalError ''connection refused'')) None)
      \<lparr> client = syncClient\<lparr>config := (config syncClient)\<lparr>MaxRetries := 0\<rparr>\<rparr>,
        batchConfig = DefaultBatchConfig, timer = None, batch = [startedEntry],
        batchMu = MuFree, stopped = False \<rparr>
    = Returns
        (Some (FailedToSendAfter 1
                 (Some (FailedToConnect ''unix'' DefaultSocketPath
                          (ExternalError ''connection refused'')))),
         \<lparr> client = syncClient
             \<lparr>config := (config syncClient)\<lparr>MaxRetries := 0\<rparr>,
              circuitBreaker :=
                \<lparr> lastFailureTime = 2000, state = circuitClosed, failureCount = 1 \<rparr>,
              trace := [Dial ''unix'' DefaultSocketPath, ReportFailure]\<rparr>,
           batchConfig = DefaultBatchConfig, timer = Some TimerArmed, batch = [],
           batchMu = MuFree, stopped = False \<rparr>)
   \<and> flushBatchLocked (peer None None)
      \<lparr> client = parkedClient, batchConfig = DefaultBatchConfig, timer = None,
        batch = [startedEntry], batchMu = MuFree, stopped = False \<rparr>
    = Blocks
        \<lparr> client = parkedClient, batchConfig = DefaultBatchConfig, timer = Some TimerArmed,
          batch = [], batchMu = MuFree, stopped = False \<rparr>
   \<and> BatchSendLogEntry (peer None None)
      \<lparr> client = parkedClient, batchConfig = DefaultBatchConfig\<lparr>MaxBatchSize := 2\<rparr>,
        timer = None, batch = [startedEntry], batchMu = MuFree, stopped = False \<rparr>
      startedEntry
    = Blocks
        \<lparr> client = parkedClient, batchConfig = DefaultBatchConfig\<lparr>MaxBatchSize := 2\<rparr>,
          timer = Some TimerArmed, batch = [], batchMu = MuHeld, stopped = False \<rparr>"
proof -
  let ?refused = "peer (Some (ExternalError ''connection refused'')) None :: real env"
  let ?sync = "syncClient\<lparr>config := (config syncClient)\<lparr>MaxRetries := 0\<rparr>\<rparr>"
  let ?b1 = "\<lparr> client = ?sync, batchConfig = DefaultBatchConfig, timer = None,
        batch = [startedEntry], batchMu = MuFree, stopped = False \<rparr>"
  let ?b2 = "\<lparr> client = parkedClient, batchConfig = DefaultBatchConfig, timer = None,
        batch = [startedEntry], batchMu = MuFree, stopped = False \<rparr>"
  let ?b3 = "\<lparr> client = parkedClient, batchConfig = DefaultBatchConfig\<lparr>MaxBatchSize := 2\<rparr>,
        timer = None, batch = [startedEntry], batchMu = MuFree, stopped = False \<rparr>"
  have sent1: "SendLogBatch ?refused ?sync [startedEntry] =
      Returns (Some (FailedToSendAfter 1
                 (Some (FailedToConnect ''unix'' DefaultSocketPath
                          (ExternalError ''connection refused'')))),
         ?sync\<lparr>circuitBreaker :=
                \<lparr> lastFailureTime = 2000, state = circuitClosed, failureCount = 1 \<rparr>,
              trace := [Dial ''unix'' DefaultSocketPath, ReportFailure]\<rparr>)"
    by (simp add: SendLogBatch_def sendWithRetry_def retryLoop.simps canExecute_def
          onFailure_def threshold32_def Connect_def record_event_def newCircuitBreaker_def
          syncClient_def peer_def DefaultConfig_def Let_def)
  have sent2: "SendLogBatch (peer None None) parkedClient [startedEntry] = Blocks parkedClient"
    by (simp add: SendLogBatch_def sendAsync_def parkedClient_def DefaultConfig_def Let_def)
  have ne1: "batch ?b1 \<noteq> []" and ne2: "batch ?b2 \<noteq> []" by simp_all
  have pre3: "\<not> stopped ?b3 \<and> batchMu ?b3 = MuFree
        \<and> MaxBatchSize (batchConfig ?b3) \<le> int (length (batch ?b3)) + 1"
    by simp
  have f1: "\<exists>bc'. flushBatchLocked ?refused ?b1 =
      Returns (Some (FailedToSendAfter 1
                 (Some (FailedToConnect ''unix'' DefaultSocketPath
                          (ExternalError ''connection refused'')))), bc') \<and> batch bc' = []"
    using flush_clears_buffer [of ?b1 ?refused] ne1 sent1 by auto
  have f2: "\<exists>bc'. flushBatchLocked (peer None None) ?b2 = Blocks bc' \<and> batch bc' = []"
    using flush_clears_buffer [of ?b2 "peer None None"] ne2 sent2 by auto
  have f3: "BatchSendLogEntry (peer None None) ?b3 startedEntry
          = withBatchLock (flushBatchLocked (peer None None))
              (?b3\<lparr>batch := batch ?b3 @ [startedEntry]\<rparr>)"
    using flush_clears_buffer [of ?b3 "peer None None" startedEntry] pre3 by blast
  have g1: "flushBatchLocked ?refused ?b1 =
      Returns (Some (FailedToSendAfter 1
                 (Some (FailedToConnect ''unix'' DefaultSocketPath
                          (ExternalError ''connection refused'')))),
         \<lparr> client = ?sync\<lparr>circuitBreaker :=
                \<lparr> lastFailureTime = 2000, state = circuitClosed, failureCount = 1 \<rparr>,
              trace := [Dial ''unix'' DefaultSocketPath, ReportFailure]\<rparr>,
           batchConfig = DefaultBatchConfig, timer = Some TimerArmed, batch = [],
           batchMu = MuFree, stopped = False \<rparr>)"
    using f1 sent1
    by (simp add: flushBatchLocked_def sendBatchCopy_def startFlushTimerLocked_def
          DefaultBatchConfig_def Let_def)
  have g2: "flushBatchLocked (peer None None) ?b2 =
      Blocks \<lparr> client = parkedClient, batchConfig = DefaultBatchConfig,
               timer = Some TimerArmed, batch = [], batchMu = MuFree, stopped = False \<rparr>"
    using f2 sent2
    by (simp add: flushBatchLocked_def sendBatchCopy_def startFlushTimerLocked_def
          DefaultBatchConfig_def Let_def)
  have sent3: "SendLogBatch (peer None None) parkedClient [startedEntry, startedEntry]
                 = Blocks parkedClient"
    by (simp add: SendLogBatch_def sendAsync_def parkedClient_def DefaultConfig_def Let_def)
  have g3: "BatchSendLogEntry (peer None None) ?b3 startedEntry =
      Blocks \<lparr> client = parkedClient, batchConfig = DefaultBatchConfig\<lparr>MaxBatchSize := 2\<rparr>,
          timer = Some TimerArmed, batch = [], batchMu = MuHeld, stopped = False \<rparr>"
    unfolding f3 using sent3
    by (simp add: withBatchLock_def flushBatchLocked_def sendBatchCopy_def
          startFlushTimerLocked_def DefaultBatchConfig_def Let_def)
  from g1 g2 g3 show ?thesis by (simp only: simp_thms)
qed

subsection \<open>Backoff delay\<close>

lemma CalculateBackoffDelay_positive:
  assumes "0 < attempt"
  shows "CalculateBackoffDelay ops c attempt r =
           (let pre = multiplyDelay ops (fromConst ops (RetryMultiplier c))
                        (fromInt ops (RetryDelay c)) (nat attempt);
                capped = (if greater64 ops pre (fromInt ops (MaxRetryDelay c))
                          then fromInt ops (MaxRetryDelay c) else pre);
                jittered =
                  (if 0 < JitterPercent c
                   then plus64 ops capped
                          (times64 ops
                             (minus64 ops (times64 ops r (fromConst ops 2)) (fromConst ops 1))
                             (times64 ops capped (fromConst ops (JitterPercent c))))
                   else capped)
            in max (RetryDelay c) (toDuration ops jittered))"
  using assms by (simp add: CalculateBackoffDelay_def Let_def max_def not_less)

lemma CalculateBackoffDelay_lower: "RetryDelay c \<le> CalculateBackoffDelay ops c attempt r"
  by (simp add: CalculateBackoffDelay_def Let_def)

text \<open>
  Whatever the arithmetic: when the initial delay is above \<open>maxDelay * (1 + jitter)\<close>,
  so is every delay returned.
\<close>

lemma backoff_above_bound:
  assumes "real_of_int (MaxRetryDelay c) * (1 + JitterPercent c) < real_of_int (RetryDelay c)"
  shows "\<not> real_of_int (CalculateBackoffDelay ops c attempt r)
            \<le> real_of_int (MaxRetryDelay c) * (1 + JitterPercent c)"
proof -
  have "real_of_int (RetryDelay c) \<le> real_of_int (CalculateBackoffDelay ops c attempt r)"
    using CalculateBackoffDelay_lower [of c ops attempt r] by simp
  with assms show ?thesis by linarith
qed

text \<open>
  C4, as the claim states it, fails: with an initial delay of 10 s above the maximum
  delay of 5 s and the default jitter fraction, the delay of attempt 1 is the initial
  delay, 10 s, which is more than 5 s times \<open>1 + jitter\<close>. (The draw \<open>1/2\<close> makes the
  jitter term zero, and every other number in the computation is an integer that
  \<open>float64\<close> holds exactly. By \<open>backoff_above_bound\<close> the same holds for every
  draw and every arithmetic.)
\<close>

theorem backoff_upper_bound_counterexample:
  "CalculateBackoffDelay exactArith (DefaultConfig\<lparr>RetryDelay := 10 * Second\<rparr>) 1 (1 / 2)
     = 10 * Second
   \<and> \<not> real_of_int
          (CalculateBackoffDelay exactArith (DefaultConfig\<lparr>RetryDelay := 10 * Second\<rparr>) 1 (1 / 2))
        \<le> real_of_int (MaxRetryDelay (DefaultConfig\<lparr>RetryDelay := 10 * Second\<rparr>))
            * (1 + JitterPercent (DefaultConfig\<lparr>RetryDelay := 10 * Second\<rparr>))"
  by (simp add: CalculateBackoffDelay_def exactArith_def DefaultConfig_def Second_def Let_def)

text \<open>
  C4, amended. Whatever \<open>float64\<close> arithmetic does: for an attempt number \<open>n \<le> 0\<close>
  the delay is the initial delay. For \<open>n > 0\<close> and every jitter draw \<open>r\<close> the delay
  is the larger of the initial delay and \<open>time.Duration(x)\<close>, where \<open>x\<close> is computed
  in \<open>float64\<close>: the initial delay multiplied \<open>n\<close> times by the multiplier, replaced
  by the maximum delay if it is greater, and, if the jitter fraction is positive, with
  \<open>(r * 2 - 1) * (capped * jitter)\<close> added. So the delay is never below the initial
  delay. No upper bound is part of the statement.
\<close>

theorem backoff_delay_bounds:
  "(attempt \<le> 0 \<longrightarrow> CalculateBackoffDelay ops c attempt r = RetryDelay c)
   \<and> (0 < attempt \<longrightarrow>
        CalculateBackoffDelay ops c attempt r =
           (let pre = multiplyDelay ops (fromConst ops (RetryMultiplier c))
                        (fromInt ops (RetryDelay c)) (nat attempt);
                capped = (if greater64 ops pre (fromInt ops (MaxRetryDelay c))
                          then fromInt ops (MaxRetryDelay c) else pre);
                jittered =
                  (if 0 < JitterPercent c
                   then plus64 ops capped
                          (times64 ops
                             (minus64 ops (times64 ops r (fromConst ops 2)) (fromConst ops 1))
                             (times64 ops capped (fromConst ops (JitterPercent c))))
                   else capped)
            in max (RetryDelay c) (toDuration ops jittered)))
   \<and> RetryDelay c \<le> CalculateBackoffDelay ops c attempt r"
proof (intro conjI impI)
  assume "attempt \<le> 0"
  then show "CalculateBackoffDelay ops c attempt r = RetryDelay c"
    by (simp add: CalculateBackoffDelay_def)
next
  assume pos: "0 < attempt"
  then show "CalculateBackoffDelay ops c attempt r =
           (let pre = multiplyDelay ops (fromConst ops (RetryMultiplier c))
                        (fromInt ops (RetryDelay c)) (nat attempt);
                capped = (if greater64 ops pre (fromInt ops (MaxRetryDelay c))
                          then fromInt ops (MaxRetryDelay c) else pre);
                jittered =
                  (if 0 < JitterPercent c
                   then plus64 ops capped
                          (times64 ops
                             (minus64 ops (times64 ops r (fromConst ops 2)) (fromConst ops 1))
                             (times64 ops capped (fromConst ops (JitterPercent c))))
                   else capped)
            in max (RetryDelay c) (toDuration ops jittered))"
    by (rule CalculateBackoffDelay_positive)
next
  show "RetryDelay c \<le> CalculateBackoffDelay ops c attempt r"
    by (rule CalculateBackoffDelay_lower)
qed

theorem backoff_delay_bounds_witness:
  "CalculateBackoffDelay exactArith DefaultConfig 0 (3 / 4) = 100 * Millisecond
   \<and> CalculateBackoffDelay exactArith DefaultConfig 2 (3 / 4) = 420 * Millisecond
   \<and> CalculateBackoffDelay exactArith DefaultConfig 7 (1 / 2) = 5 * Second
   \<and> RetryDelay DefaultConfig \<le> CalculateBackoffDelay exactArith DefaultConfig 2 (3 / 4)"
  using backoff_delay_bounds [of 0 exactArith DefaultConfig "3 / 4"]
        backoff_delay_bounds [of 2 exactArith DefaultConfig "3 / 4"]
        backoff_delay_bounds [of 7 exactArith DefaultConfig "1 / 2"]
  by (simp add: exactArith_def DefaultConfig_def Second_def Millisecond_def Let_def
        numeral_eq_Suc)

text \<open>
  In arithmetic without rounding the upper bound of the claim holds under side
  conditions: a draw in \<open>[0, 1)\<close>, a jitter fraction in \<open>[0, 1]\<close>, a maximum delay that
  is not negative, and an initial delay that is itself at most the bound.
\<close>

lemma multiplyDelay_exact: "multiplyDelay exactArith m delay n = delay * m ^ n"
  by (induction n arbitrary: delay) (simp_all add: exactArith_def mult.assoc)

lemma toDuration_exact_le: "0 \<le> x \<Longrightarrow> real_of_int (toDuration exactArith x) \<le> x"
  by (simp add: exactArith_def)

lemma toDuration_exact_nonpos: "x < 0 \<Longrightarrow> toDuration exactArith x \<le> 0"
  by (simp add: exactArith_def ceiling_le_iff)

lemma jittered_upper:
  fixes capped jf r mx :: real
  assumes r: "0 \<le> r" "r < 1" and jf: "0 \<le> jf" "jf \<le> 1"
    and mx: "0 \<le> mx" and cap: "capped \<le> mx"
  shows "capped + (r * 2 - 1) * (capped * jf) \<le> mx * (1 + jf)"
proof -
  have eq: "capped + (r * 2 - 1) * (capped * jf) = capped * (1 + (r * 2 - 1) * jf)"
    by (simp add: algebra_simps)
  have "r * 2 - 1 \<le> 1" using r by simp
  then have "(r * 2 - 1) * jf \<le> 1 * jf"
    using jf(1) by (rule mult_right_mono)
  then have f_hi: "1 + (r * 2 - 1) * jf \<le> 1 + jf" by simp
  have "- 1 \<le> r * 2 - 1" using r by simp
  then have "- jf \<le> (r * 2 - 1) * jf"
    using jf(1) mult_right_mono [of "- 1" "r * 2 - 1" jf] by simp
  then have f_lo: "0 \<le> 1 + (r * 2 - 1) * jf" using jf by linarith
  show ?thesis
  proof (cases "0 \<le> capped")
    case True
    have "capped * (1 + (r * 2 - 1) * jf) \<le> capped * (1 + jf)"
      using True f_hi by (rule mult_left_mono [rotated])
    also have "\<dots> \<le> mx * (1 + jf)"
      using cap jf by (intro mult_right_mono) auto
    finally show ?thesis using eq by simp
  next
    case False
    then have "capped * (1 + (r * 2 - 1) * jf) \<le> 0"
      using f_lo by (simp add: mult_le_0_iff)
    also have "0 \<le> mx * (1 + jf)" using mx jf by simp
    finally show ?thesis using eq by simp
  qed
qed

lemma backoff_upper_bound_exact:
  assumes a: "0 < attempt" "0 \<le> r" "r < 1" "0 \<le> JitterPercent c" "JitterPercent c \<le> 1"
    "0 \<le> MaxRetryDelay c"
    "real_of_int (RetryDelay c) \<le> real_of_int (MaxRetryDelay c) * (1 + JitterPercent c)"
  shows "real_of_int (CalculateBackoffDelay exactArith c attempt r)
            \<le> real_of_int (MaxRetryDelay c) * (1 + JitterPercent c)"
proof -
  define capped where
    "capped = min (real_of_int (RetryDelay c) * RetryMultiplier c ^ nat attempt)
                  (real_of_int (MaxRetryDelay c))"
  define jittered where
    "jittered = (if 0 < JitterPercent c
                 then capped + (r * 2 - 1) * (capped * JitterPercent c) else capped)"
  define bound where "bound = real_of_int (MaxRetryDelay c) * (1 + JitterPercent c)"
  have sel: "fromInt exactArith = real_of_int" "fromConst exactArith = (\<lambda>x. x)"
    "times64 exactArith = (\<lambda>x y. x * y)" "plus64 exactArith = (\<lambda>x y. x + y)"
    "minus64 exactArith = (\<lambda>x y. x - y)" "greater64 exactArith = (\<lambda>x y. x > y)"
    by (simp_all add: exactArith_def)
  have d: "CalculateBackoffDelay exactArith c attempt r
             = max (RetryDelay c) (toDuration exactArith jittered)"
    using a(1)
    by (simp add: CalculateBackoffDelay_positive multiplyDelay_exact sel jittered_def
          capped_def Let_def min_def not_less)
  have cap: "capped \<le> real_of_int (MaxRetryDelay c)"
    by (simp add: capped_def)
  have bound0: "0 \<le> bound"
    using a by (simp add: bound_def)
  have j: "jittered \<le> bound"
  proof (cases "0 < JitterPercent c")
    case True
    then show ?thesis
      unfolding jittered_def bound_def
      using jittered_upper [of r "JitterPercent c" "real_of_int (MaxRetryDelay c)" capped] a cap
      by simp
  next
    case False
    then have "JitterPercent c = 0" using a by simp
    then show ?thesis using cap by (simp add: jittered_def bound_def)
  qed
  have t: "real_of_int (toDuration exactArith jittered) \<le> bound"
  proof (cases "0 \<le> jittered")
    case True
    then show ?thesis using toDuration_exact_le [of jittered] j by simp
  next
    case False
    then have "toDuration exactArith jittered \<le> 0" by (simp add: toDuration_exact_nonpos)
    then have "real_of_int (toDuration exactArith jittered) \<le> 0" by simp
    then show ?thesis using bound0 by simp
  qed
  have i: "real_of_int (RetryDelay c) \<le> bound"
    using a by (simp add: bound_def)
  show ?thesis
    using d t i by (simp add: bound_def max_def)
qed


end
